theory Spec2Isabelle
  imports Main "HOL-Library.Sublist" "HOL-Library.Multiset"
begin

section \<open>JavaScript string primitives used by the extractors\<close>

text \<open>
  A JavaScript string is modelled as a \<^typ>\<open>string\<close>, one \<^typ>\<open>char\<close> per code unit;
  the model therefore covers texts whose code units fit one octet. All anchors of the
  program are ASCII. Indices are \<^typ>\<open>int\<close>, since \<open>indexOf\<close> returns \<open>-1\<close> and the
  source computes with that value.
\<close>

text \<open>\<open>s.indexOf(sub)\<close>: the first position where \<open>sub\<close> starts, or \<open>-1\<close>.\<close>

fun indexOf_from :: "string \<Rightarrow> string \<Rightarrow> nat \<Rightarrow> int" where
  "indexOf_from [] sub i = (if sub = [] then int i else - 1)"
| "indexOf_from (c # cs) sub i =
     (if prefix sub (c # cs) then int i else indexOf_from cs sub (Suc i))"

definition indexOf :: "string \<Rightarrow> string \<Rightarrow> int" where
  "indexOf s sub = indexOf_from s sub 0"

text \<open>\<open>s.substring(a, b)\<close>: both indices are clamped to \<open>[0, length]\<close> and swapped when
  out of order; \<open>s.substring(a)\<close> runs to the end.\<close>

definition clamp_index :: "int \<Rightarrow> nat \<Rightarrow> nat" where
  "clamp_index i n = (if i < 0 then 0 else min (nat i) n)"

definition substring :: "string \<Rightarrow> int \<Rightarrow> int \<Rightarrow> string" where
  "substring s a b =
     (let n = length s; x = clamp_index a n; y = clamp_index b n;
          lo = min x y; hi = max x y
      in take (hi - lo) (drop lo s))"

definition substring_from :: "string \<Rightarrow> int \<Rightarrow> string" where
  "substring_from s a = substring s a (int (length s))"

text \<open>\<open>s.slice(a, b)\<close>: a negative index counts from the end; the result is empty when
  the bounds are out of order; \<open>s.slice(a)\<close> runs to the end.\<close>

definition slice_index :: "int \<Rightarrow> nat \<Rightarrow> nat" where
  "slice_index i n = (if i < 0 then nat (max (int n + i) 0) else min (nat i) n)"

definition slice :: "string \<Rightarrow> int \<Rightarrow> int \<Rightarrow> string" where
  "slice s a b =
     (let n = length s; lo = slice_index a n; hi = slice_index b n
      in if lo < hi then take (hi - lo) (drop lo s) else [])"

definition slice_from :: "string \<Rightarrow> int \<Rightarrow> string" where
  "slice_from s a = slice s a (int (length s))"

text \<open>\<open>s[i]\<close>: the character at \<open>i\<close>, or \<open>undefined\<close> (here \<open>None\<close>) out of range.
  \<open>Array.prototype.join('')\<close> renders \<open>undefined\<close> as the empty string.\<close>

definition char_at :: "string \<Rightarrow> int \<Rightarrow> char option" where
  "char_at s i = (if 0 \<le> i \<and> i < int (length s) then Some (s ! nat i) else None)"

fun join_chars :: "char option list \<Rightarrow> string" where
  "join_chars [] = []"
| "join_chars (None # xs) = join_chars xs"
| "join_chars (Some c # xs) = c # join_chars xs"

text \<open>\<open>s.split(/\n/)\<close>: the pieces between line feeds; never an empty array.\<close>

fun split_lines :: "string \<Rightarrow> string list" where
  "split_lines [] = [[]]"
| "split_lines (c # cs) =
     (if c = CHR 0x0A then [] # split_lines cs
      else (let r = split_lines cs in (c # hd r) # tl r))"

text \<open>White space as \<open>trim\<close> and the regular expression class \<open>\s\<close> see it (tab, line
  feed, vertical tab, form feed, carriage return, space, no-break space), and the
  digits of \<open>\d\<close>.\<close>

definition is_space :: "char \<Rightarrow> bool" where
  "is_space c = (of_char c \<in> {9, 10, 11, 12, 13, 32, 160 :: nat})"

definition is_digit :: "char \<Rightarrow> bool" where
  "is_digit c = (48 \<le> (of_char c :: nat) \<and> (of_char c :: nat) \<le> 57)"

definition trim :: "string \<Rightarrow> string" where
  "trim s = rev (dropWhile is_space (rev (dropWhile is_space s)))"

text \<open>\<open>s.replace(/\s/g, '')\<close> and \<open>/^\d+$/.test(s)\<close>.\<close>

definition remove_spaces :: "string \<Rightarrow> string" where
  "remove_spaces s = filter (\<lambda>c. \<not> is_space c) s"

definition all_digits :: "string \<Rightarrow> bool" where
  "all_digits s = (s \<noteq> [] \<and> list_all is_digit s)"

section \<open>The extracted record and the format detector\<close>

record EbupotExtractedData =
  h1 :: string
  b1 :: string
  b2 :: string
  b7 :: "string list"
  b8 :: "string list"
  c1 :: string
  c3 :: string

definition empty_data :: EbupotExtractedData where
  "empty_data = \<lparr>h1 = [], b1 = [], b2 = [], b7 = [], b8 = [], c1 = [], c3 = []\<rparr>"

definition getEbupotFormatedSignature :: "string \<Rightarrow> string" where
  "getEbupotFormatedSignature data =
     (if indexOf data ''FORMULIR BPBS\<newline>H.1\<newline>H.2\<newline>H.3'' > - 1 then ''A''
      else if indexOf data ''FORMULIR BPBS\<newline>Bukti Pemotongan'' > - 1 then ''B''
      else if indexOf data ''FORMULIR BPBS\<newline>H.1\<newline>NOMOR'' > - 1 then ''C''
      else if length (trim data) = 0 then ''Z''
      else ''U'')"

section \<open>Shared utilities\<close>

definition ddmmyyyyToIso :: "string \<Rightarrow> string" where
  "ddmmyyyyToIso ddmmyyyy =
     (let year = substring ddmmyyyy 4 8;
          month = substring ddmmyyyy 2 4;
          day = substring ddmmyyyy 0 2
      in year @ ''-'' @ month @ ''-'' @ day)"

text \<open>The loop of \<open>splitDocDate\<close>: \<open>i\<close> walks down from the last index while \<open>i > 0\<close>;
  every character other than a space is pushed to \<open>date\<close>; the loop breaks once
  eight were collected. An out-of-range read would push \<open>undefined\<close> (\<open>None\<close>).\<close>

function splitDocDate_loop :: "string \<Rightarrow> int \<Rightarrow> char option list \<Rightarrow> int \<times> char option list" where
  "splitDocDate_loop line i date =
     (if i > 0 then
        (let date' = (if char_at line i \<noteq> Some CHR '' '' then date @ [char_at line i] else date)
         in if length date' \<ge> 8 then (i, date')
            else splitDocDate_loop line (i - 1) date')
      else (i, date))"
  by pat_completeness auto
termination
  by (relation "measure (\<lambda>(line, i, date). nat i)") auto

declare splitDocDate_loop.simps [simp del]

definition splitDocDate :: "string \<Rightarrow> string \<times> string" where
  "splitDocDate line =
     (case splitDocDate_loop line (int (length line) - 1) [] of
        (i, date) \<Rightarrow> (substring line 0 i, ddmmyyyyToIso (join_chars (rev date))))"

section \<open>The line loops\<close>

text \<open>
  Each extractor walks the lines in a \<open>for\<close> loop whose body ends in \<open>continue\<close> or
  \<open>break\<close>. A loop body is a step function on the local variables of the extractor;
  its result says how the body was left. Nothing in the bodies of Extractors A and B can
  throw: they call string methods on strings, push to, pop from and join arrays, and
  read characters by index, which yields \<open>undefined\<close> out of range.
\<close>

datatype 'a flow = Continue 'a | Break 'a

datatype js_error = TypeError

subsection \<open>Extractor A\<close>

record extractA_state =
  stateA :: nat
  bufferA :: string
  retA :: EbupotExtractedData

definition initA :: extractA_state where
  "initA = \<lparr>stateA = 0, bufferA = [], retA = empty_data\<rparr>"

definition stepA :: "extractA_state \<Rightarrow> string \<Rightarrow> extractA_state flow" where
  "stepA c line =
    (let ret = retA c; buffer = bufferA c in
     if stateA c = 0 then Continue (c\<lparr>stateA := 1\<rparr>)
     else if stateA c = 1 then
       Continue (c\<lparr>retA := ret\<lparr>b7 := b7 ret @ [line]\<rparr>, stateA := 2\<rparr>)
     else if stateA c = 2 then
       (if line = ''yyyy'' then Continue (c\<lparr>stateA := 3\<rparr>) else Continue c)
     else if stateA c = 3 then
       (if line = [] then
          Continue (c\<lparr>stateA := 4, retA := ret\<lparr>b7 := butlast (b7 ret)\<rparr>\<rparr>)
        else
          (let docName = slice line 0 (- 8); docDate = slice_from line (- 8) in
           Continue (c\<lparr>stateA := 4,
                       retA := ret\<lparr>b7 := b7 ret @ [docName] @ [ddmmyyyyToIso docDate]\<rparr>\<rparr>)))
     else if stateA c = 4 then
       (if line = ''Tanggal'' then Continue (c\<lparr>stateA := 5\<rparr>) else Continue c)
     else if stateA c = 5 then
       (if line = ''B.9'' then
          (if length buffer = 0 then Continue (c\<lparr>stateA := 6\<rparr>)
           else
             (let docName = slice buffer 0 (- 8); docDate = slice_from buffer (- 8) in
              Continue (c\<lparr>stateA := 6,
                          retA := ret\<lparr>b8 := b8 ret @ [docName, ddmmyyyyToIso docDate]\<rparr>,
                          bufferA := []\<rparr>)))
        else Continue (c\<lparr>bufferA := buffer @ line\<rparr>))
     else if stateA c = 6 then
       (if line = ''C.1'' then Continue (c\<lparr>stateA := 7\<rparr>) else Continue c)
     else if stateA c = 7 then
       (if line = '':NPWP'' then Continue (c\<lparr>stateA := 8\<rparr>) else Continue c)
     else if stateA c = 8 then
       (if line = ''Nama Wajib PajakC.2:'' then
          Continue (c\<lparr>stateA := 9, retA := ret\<lparr>c1 := buffer\<rparr>, bufferA := []\<rparr>)
        else Continue (c\<lparr>bufferA := buffer @ line\<rparr>))
     else if stateA c = 9 then
       (if line = ''mmyyyy'' then Continue (c\<lparr>stateA := 10\<rparr>) else Continue c)
     else if stateA c = 10 then
       (if line = ''C.4'' then
          Continue (c\<lparr>stateA := 11, retA := ret\<lparr>c3 := ddmmyyyyToIso buffer\<rparr>, bufferA := []\<rparr>)
        else Continue (c\<lparr>bufferA := buffer @ line\<rparr>))
     else if stateA c = 11 then
       (if indexOf line ''Bukti Pemotongan ini.'' > - 1 then Continue (c\<lparr>stateA := 12\<rparr>)
        else Continue c)
     else if stateA c = 12 then
       Continue (c\<lparr>retA := ret\<lparr>h1 := line\<rparr>, stateA := 13\<rparr>)
     else if stateA c = 13 then
       (if length line > 4 then Continue (c\<lparr>stateA := 14, retA := ret\<lparr>b1 := line\<rparr>\<rparr>)
        else Continue c)
     else if stateA c = 14 then
       Break (c\<lparr>retA := ret\<lparr>b2 := line\<rparr>\<rparr>)
     else Continue c)"

fun loopA :: "extractA_state \<Rightarrow> string list \<Rightarrow> extractA_state" where
  "loopA c [] = c"
| "loopA c (line # rest) =
     (case stepA c line of Continue c' \<Rightarrow> loopA c' rest | Break c' \<Rightarrow> c')"

definition extractAFormatedEbupot :: "string \<Rightarrow> EbupotExtractedData" where
  "extractAFormatedEbupot data =
     (let p = indexOf data ''Dokumen Referensi''; s = substring_from data p
      in retA (loopA initA (split_lines s)))"

subsection \<open>Extractor B\<close>

record extractB_state =
  stateB :: nat
  retB :: EbupotExtractedData

definition initB :: extractB_state where
  "initB = \<lparr>stateB = 0, retB = empty_data\<rparr>"

definition stepB :: "extractB_state \<Rightarrow> string \<Rightarrow> extractB_state flow" where
  "stepB c line =
    (let ret = retB c in
     if stateB c < 2 then Continue (c\<lparr>stateB := stateB c + 1\<rparr>)
     else if stateB c = 2 then
       Continue (c\<lparr>retB := ret\<lparr>h1 := line\<rparr>, stateB := 3\<rparr>)
     else if stateB c = 3 then
       (if line = ''B.1B.2B.3B.4B.5B.6'' then Continue (c\<lparr>stateB := 4\<rparr>) else Continue c)
     else if stateB c = 4 then
       (let v1 = (if slice line (- 11) (- 10) = '','' then slice_from line (- 7)
                  else slice_from line (- 6));
            p = indexOf line ''-'';
            v2 = substring line (p - 2) (p + 7)
        in Continue (c\<lparr>stateB := 5, retB := ret\<lparr>b1 := v1, b2 := v2\<rparr>\<rparr>))
     else if stateB c = 5 then
       (if line = ''ddmmyyyy'' then Continue (c\<lparr>stateB := 6\<rparr>) else Continue c)
     else if stateB c = 6 then
       (if line = ''B.8'' then
          Continue (c\<lparr>stateB := 8, retB := ret\<lparr>b7 := b7 ret @ [[], [], []]\<rparr>\<rparr>)
        else Continue (c\<lparr>stateB := 7, retB := ret\<lparr>b7 := b7 ret @ [line]\<rparr>\<rparr>))
     else if stateB c = 7 then
       (let randDate = slice_from line (- 8);
            date = [char_at randDate 1, char_at randDate 2, char_at randDate 7,
                    char_at randDate 5, Some CHR ''-'', char_at randDate 3,
                    char_at randDate 4, Some CHR ''-'', char_at randDate 0,
                    char_at randDate 6]
        in Continue (c\<lparr>stateB := 8,
                       retB := ret\<lparr>b7 := b7 ret @ [slice line 0 (- 8)] @ [join_chars date]\<rparr>\<rparr>))
     else if stateB c = 8 then Continue (c\<lparr>stateB := 9\<rparr>)
     else if stateB c = 9 then
       (if prefix ''C. IDENTITAS PEMOTONG'' line then Continue (c\<lparr>stateB := 10\<rparr>)
        else Continue c)
     else if stateB c = 10 then
       (let npwp = [char_at line 7, char_at line 11, char_at line 14, char_at line 9,
                    char_at line 3, char_at line 5, char_at line 12, char_at line 13,
                    char_at line 1, char_at line 6, char_at line 2, char_at line 10,
                    char_at line 0, char_at line 8, char_at line 4]
        in Continue (c\<lparr>stateB := 11, retB := ret\<lparr>c1 := join_chars npwp\<rparr>\<rparr>))
     else if stateB c = 11 then
       (if line = ''C.2Nama Wajib Pajak:'' then Continue (c\<lparr>stateB := 12\<rparr>) else Continue c)
     else if stateB c = 12 then
       (let date = [char_at line 1, char_at line 7, char_at line 2, char_at line 4,
                    Some CHR ''-'', char_at line 0, char_at line 6, Some CHR ''-'',
                    char_at line 5, char_at line 3]
        in Break (c\<lparr>retB := ret\<lparr>c3 := join_chars date\<rparr>\<rparr>))
     else Continue c)"

fun loopB :: "extractB_state \<Rightarrow> string list \<Rightarrow> extractB_state" where
  "loopB c [] = c"
| "loopB c (line # rest) =
     (case stepB c line of Continue c' \<Rightarrow> loopB c' rest | Break c' \<Rightarrow> c')"

definition extractBFormatedEbupot :: "string \<Rightarrow> EbupotExtractedData" where
  "extractBFormatedEbupot data =
     (let p = indexOf data ''PPh Tidak Final''; s = substring_from data p
      in retB (loopB initB (split_lines s)))"

subsection \<open>Extractor C\<close>

text \<open>
  State 11 reads \<open>bufferLines[0]\<close> and \<open>bufferLines[1]\<close> and hands one of them to
  \<open>splitDocDate\<close>, which reads its \<open>length\<close>: on \<open>undefined\<close> that is a
  \<open>TypeError\<close>. The step function therefore returns an error or a flow.
\<close>

record extractC_state =
  stateC :: nat
  bufferLines :: "string list"
  b7flag :: bool
  retC :: EbupotExtractedData

definition initC :: extractC_state where
  "initC = \<lparr>stateC = 0, bufferLines = [], b7flag = False, retC = empty_data\<rparr>"

definition stepC :: "extractC_state \<Rightarrow> string \<Rightarrow> js_error + extractC_state flow" where
  "stepC c line =
    (let ret = retC c in
     if stateC c = 0 then Inr (Continue (c\<lparr>stateC := 1\<rparr>))
     else if stateC c = 1 then
       Inr (Continue (c\<lparr>retC := ret\<lparr>h1 := remove_spaces line\<rparr>, stateC := 2\<rparr>))
     else if stateC c < 6 then Inr (Continue (c\<lparr>stateC := stateC c + 1\<rparr>))
     else if stateC c = 6 then
       (let p = indexOf line ''-'' in
        Inr (Continue (c\<lparr>stateC := 7,
                          retC := ret\<lparr>b1 := substring line 0 (p + 5),
                                      b2 := substring line (p + 5) (p + 14)\<rparr>\<rparr>)))
     else if stateC c = 7 then Inr (Continue (c\<lparr>stateC := 8\<rparr>))
     else if stateC c = 8 then
       Inr (Continue (c\<lparr>stateC := 9, bufferLines := bufferLines c @ [line]\<rparr>))
     else if stateC c = 9 then
       (let npwp = remove_spaces line in
        if all_digits npwp \<and> length npwp = 15 then
          Inr (Continue (c\<lparr>stateC := 11, retC := ret\<lparr>c1 := npwp\<rparr>\<rparr>))
        else
          Inr (Continue (c\<lparr>stateC := 10, bufferLines := bufferLines c @ [line],
                            b7flag := True\<rparr>)))
     else if stateC c = 10 then
       Inr (Continue (c\<lparr>stateC := 11, retC := ret\<lparr>c1 := remove_spaces line\<rparr>\<rparr>))
     else if stateC c = 11 then
       (if b7flag c then
          (case bufferLines c of
             l0 # l1 # _ \<Rightarrow>
               (case splitDocDate l1 of (doc, date) \<Rightarrow>
                  Inr (Continue (c\<lparr>stateC := 12,
                                    retC := ret\<lparr>b7 := b7 ret @ [l0] @ [doc, date]\<rparr>\<rparr>)))
           | _ \<Rightarrow> Inl TypeError)
        else
          (case bufferLines c of
             l0 # _ \<Rightarrow>
               (case splitDocDate l0 of (doc, date) \<Rightarrow>
                  Inr (Continue (c\<lparr>stateC := 12, retC := ret\<lparr>b8 := b8 ret @ [doc, date]\<rparr>\<rparr>)))
           | [] \<Rightarrow> Inl TypeError))
     else if stateC c = 12 then
       Inr (Break (c\<lparr>retC := ret\<lparr>c3 := ddmmyyyyToIso (remove_spaces line)\<rparr>\<rparr>))
     else Inr (Continue c))"

fun loopC :: "extractC_state \<Rightarrow> string list \<Rightarrow> js_error + extractC_state" where
  "loopC c [] = Inr c"
| "loopC c (line # rest) =
     (case stepC c line of
        Inl e \<Rightarrow> Inl e
      | Inr (Continue c') \<Rightarrow> loopC c' rest
      | Inr (Break c') \<Rightarrow> Inr c')"

definition extractCFormatedEbupot :: "string \<Rightarrow> js_error + EbupotExtractedData" where
  "extractCFormatedEbupot data =
     (let p = indexOf data ''Bukti Pemotongan ini.''; s = substring_from data p
      in map_sum id retC (loopC initC (split_lines s)))"

subsection \<open>Dispatcher\<close>

text \<open>The default branch returns the object literal \<open>{}\<close>, which has none of the
  fields of the record; it is a value of its own.\<close>

datatype extract_result = Extracted EbupotExtractedData | EmptyObject

definition extractEbupot :: "string \<Rightarrow> string \<Rightarrow> js_error + extract_result" where
  "extractEbupot data format =
     (if format = ''A'' then Inr (Extracted (extractAFormatedEbupot data))
      else if format = ''B'' then Inr (Extracted (extractBFormatedEbupot data))
      else if format = ''C'' then map_sum id Extracted (extractCFormatedEbupot data)
      else Inr EmptyObject)"

subsection \<open>Runs against a store\<close>












section \<open>Vocabulary of the properties\<close>

text \<open>The state in which a loop body was left, whichever way it was left.\<close>

fun unflow :: "'a flow \<Rightarrow> 'a" where
  "unflow (Continue c) = c"
| "unflow (Break c) = c"

text \<open>The index list that state 10 of Extractor B reads the taxpayer ID through.\<close>

definition npwp_order :: "nat list" where
  "npwp_order = [7, 11, 14, 9, 3, 5, 12, 13, 1, 6, 2, 10, 0, 8, 4]"

text \<open>
  The states of Extractors A and B that wait for an anchor, the test each of them
  applies to a line, and the fields that only later states assign. Extractor C has no
  such state: each of its states consumes exactly one line.
\<close>

definition anchor_statesA :: "nat set" where
  "anchor_statesA = {2, 4, 5, 6, 7, 8, 9, 10, 11, 13}"

definition anchorA :: "nat \<Rightarrow> string \<Rightarrow> bool" where
  "anchorA k line =
     (if k = 2 then line = ''yyyy''
      else if k = 4 then line = ''Tanggal''
      else if k = 5 then line = ''B.9''
      else if k = 6 then line = ''C.1''
      else if k = 7 then line = '':NPWP''
      else if k = 8 then line = ''Nama Wajib PajakC.2:''
      else if k = 9 then line = ''mmyyyy''
      else if k = 10 then line = ''C.4''
      else if k = 11 then sublist ''Bukti Pemotongan ini.'' line
      else if k = 13 then length line > 4
      else False)"

definition later_defaultA :: "nat \<Rightarrow> EbupotExtractedData \<Rightarrow> bool" where
  "later_defaultA k r =
     ((k \<le> 1 \<longrightarrow> b7 r = []) \<and>
      (k \<le> 2 \<longrightarrow> length (b7 r) \<le> 1) \<and>
      (k \<le> 5 \<longrightarrow> b8 r = []) \<and>
      (k \<le> 8 \<longrightarrow> c1 r = []) \<and>
      (k \<le> 10 \<longrightarrow> c3 r = []) \<and>
      (k \<le> 12 \<longrightarrow> h1 r = []) \<and>
      (k \<le> 13 \<longrightarrow> b1 r = [] \<and> b2 r = []))"

definition anchor_statesB :: "nat set" where
  "anchor_statesB = {3, 5, 9, 11}"

definition anchorB :: "nat \<Rightarrow> string \<Rightarrow> bool" where
  "anchorB k line =
     (if k = 3 then line = ''B.1B.2B.3B.4B.5B.6''
      else if k = 5 then line = ''ddmmyyyy''
      else if k = 9 then prefix ''C. IDENTITAS PEMOTONG'' line
      else if k = 11 then line = ''C.2Nama Wajib Pajak:''
      else False)"

definition later_defaultB :: "nat \<Rightarrow> EbupotExtractedData \<Rightarrow> bool" where
  "later_defaultB k r =
     ((k \<le> 3 \<longrightarrow> b1 r = [] \<and> b2 r = []) \<and>
      (k \<le> 5 \<longrightarrow> b7 r = []) \<and>
      (k \<le> 9 \<longrightarrow> c1 r = []) \<and>
      (k \<le> 11 \<longrightarrow> c3 r = []) \<and>
      b8 r = [])"


text \<open>The lines each extractor walks: the text from its entry anchor on.\<close>

definition linesA :: "string \<Rightarrow> string list" where
  "linesA data = split_lines (substring_from data (indexOf data ''Dokumen Referensi''))"

definition linesB :: "string \<Rightarrow> string list" where
  "linesB data = split_lines (substring_from data (indexOf data ''PPh Tidak Final''))"

definition linesC :: "string \<Rightarrow> string list" where
  "linesC data = split_lines (substring_from data (indexOf data ''Bukti Pemotongan ini.''))"

text \<open>What holds of the local variables of each loop whenever its body is entered.\<close>

definition invA :: "extractA_state \<Rightarrow> bool" where
  "invA c =
     (stateA c \<le> 14 \<and> later_defaultA (stateA c) (retA c) \<and>
      (stateA c \<notin> {5, 8, 10} \<longrightarrow> bufferA c = []))"

definition invB :: "extractB_state \<Rightarrow> bool" where
  "invB c = (stateB c \<le> 12 \<and> later_defaultB (stateB c) (retB c))"

definition invC :: "extractC_state \<Rightarrow> bool" where
  "invC c =
     ((9 \<le> stateC c \<longrightarrow> bufferLines c \<noteq> []) \<and>
      (b7flag c \<longrightarrow> 2 \<le> length (bufferLines c)))"

section \<open>Properties\<close>

lemma indexOf_from_range: "indexOf_from s sub i = - 1 \<or> int i \<le> indexOf_from s sub i"
proof (induction s arbitrary: i)
  case Nil
  show ?case by simp
next
  case (Cons c cs)
  from Cons.IH [of "Suc i"] show ?case by auto
qed

lemma indexOf_from_found: "(- 1 < indexOf_from s sub i) = sublist sub s"
proof (induction s arbitrary: i)
  case Nil
  show ?case by simp
next
  case (Cons c cs)
  show ?case by (simp add: Cons.IH sublist_Cons_right)
qed

lemma indexOf_found: "(- 1 < indexOf s sub) = sublist sub s"
  by (simp add: indexOf_def indexOf_from_found)

lemma indexOf_missing: "\<not> sublist sub s \<Longrightarrow> indexOf s sub = - 1"
  using indexOf_from_range [of s sub 0] indexOf_found [of s sub]
  by (auto simp: indexOf_def)

lemma substring_from_negative: "a \<le> 0 \<Longrightarrow> substring_from s a = s"
  by (auto simp: substring_from_def substring_def clamp_index_def Let_def)

lemma dropWhile_all: "(\<forall>c\<in>set (dropWhile P s). P c) = (\<forall>c\<in>set s. P c)"
  by (induction s) auto

lemma trim_empty: "(trim s = []) = (\<forall>c\<in>set s. is_space c)"
  by (simp add: trim_def dropWhile_all)

lemma substring_0_2: "substring s 0 2 = take 2 s"
  by (auto simp: substring_def clamp_index_def Let_def min_def max_def)

lemma substring_2_4: "substring s 2 4 = take 2 (drop 2 s)"
  by (auto simp: substring_def clamp_index_def Let_def min_def max_def)

lemma substring_4_8: "substring s 4 8 = take 4 (drop 4 s)"
  by (auto simp: substring_def clamp_index_def Let_def min_def max_def)

text \<open>
  Claim C7. \<open>ddmmyyyyToIso\<close> maps every string to the characters at positions 4 to 7,
  a dash, the characters at positions 2 and 3, a dash, and the characters at positions 0
  and 1, each range cut short where the input ends; nothing is validated and no case
  fails. On \<open>05082023\<close> the result is \<open>2023-08-05\<close>.
\<close>

theorem ddmmyyyyToIso_slices:
  "ddmmyyyyToIso s = take 4 (drop 4 s) @ ''-'' @ take 2 (drop 2 s) @ ''-'' @ take 2 s
   \<and> ddmmyyyyToIso ''05082023'' = ''2023-08-05''"
  by (simp add: ddmmyyyyToIso_def substring_0_2 substring_2_4 substring_4_8)

theorem ddmmyyyyToIso_slices_witness:
  "ddmmyyyyToIso ''5-8-23'' = ''23-8--5-''"
  using ddmmyyyyToIso_slices [of "''5-8-23''"] by simp

lemma splitDocDate_loop_inv:
  "i < int (length line) \<Longrightarrow> None \<notin> set date \<Longrightarrow> length date < 8 \<Longrightarrow>
   (case splitDocDate_loop line i date of
      (j, date') \<Rightarrow> None \<notin> set date' \<and> length date' \<le> 8 \<and> j \<le> i \<and> min i 0 \<le> j)"
proof (induction line i date rule: splitDocDate_loop.induct)
  case (1 line i date)
  show ?case
  proof (cases "i > 0")
    case False
    then show ?thesis using "1.prems" by (subst splitDocDate_loop.simps) simp
  next
    case True
    define date' where "date' = (if char_at line i \<noteq> Some CHR '' '' then date @ [char_at line i] else date)"
    have in_range: "char_at line i \<noteq> None"
      using True "1.prems"(1) by (simp add: char_at_def)
    have d1: "None \<notin> set date'"
      using "1.prems"(2) in_range by (auto simp: date'_def)
    show ?thesis
    proof (cases "length date' \<ge> 8")
      case True
      have "length date' \<le> 8" using "1.prems"(3) True by (auto simp: date'_def split: if_splits)
      then show ?thesis using \<open>i > 0\<close> True d1
        by (subst splitDocDate_loop.simps) (simp add: date'_def [symmetric] Let_def)
    next
      case False
      have ih: "case splitDocDate_loop line (i - 1) date' of
          (j, d) \<Rightarrow> None \<notin> set d \<and> length d \<le> 8 \<and> j \<le> i - 1 \<and> min (i - 1) 0 \<le> j"
        using "1.IH" [OF \<open>i > 0\<close> date'_def] False "1.prems"(1) d1 by simp
      have "splitDocDate_loop line i date = splitDocDate_loop line (i - 1) date'"
        using \<open>i > 0\<close> False
        by (subst splitDocDate_loop.simps) (simp add: date'_def [symmetric] Let_def)
      then show ?thesis using ih \<open>i > 0\<close> by (auto split: prod.splits)
    qed
  qed
qed


text \<open>
  Claim C8. \<open>splitDocDate\<close> maps \<open>INVOICE LABEL   05082023\<close> to the name
  \<open>INVOICE LABEL   \<close> and the date \<open>2023-08-05\<close>. On every line, the empty one
  included, the loop returns: it never read outside the line (no \<open>undefined\<close> among
  the collected characters), collected at most eight characters, and stopped at an index
  between \<open>-1\<close> and the last index; the name is the line up to that index.
\<close>

theorem splitDocDate_bounded:
  "splitDocDate ''INVOICE LABEL   05082023'' = (''INVOICE LABEL   '', ''2023-08-05'')
   \<and> splitDocDate [] = ([], ''--'')
   \<and> (\<exists>i date. splitDocDate_loop line (int (length line) - 1) [] = (i, date)
         \<and> None \<notin> set date \<and> length date \<le> 8
         \<and> - 1 \<le> i \<and> i < max 1 (int (length line))
         \<and> splitDocDate line = (take (nat i) line, ddmmyyyyToIso (join_chars (rev date))))"
proof -
  have ex1: "splitDocDate ''INVOICE LABEL   05082023'' = (''INVOICE LABEL   '', ''2023-08-05'')"
    by code_simp
  have ex2: "splitDocDate [] = ([], ''--'')"
    by code_simp
  obtain i date where run: "splitDocDate_loop line (int (length line) - 1) [] = (i, date)"
    by (cases "splitDocDate_loop line (int (length line) - 1) []") 
  have "case splitDocDate_loop line (int (length line) - 1) [] of
      (j, d) \<Rightarrow> None \<notin> set d \<and> length d \<le> 8 \<and> j \<le> int (length line) - 1
        \<and> min (int (length line) - 1) 0 \<le> j"
    by (rule splitDocDate_loop_inv) simp_all
  then have inv: "None \<notin> set date" "length date \<le> 8" "i \<le> int (length line) - 1"
      "min (int (length line) - 1) 0 \<le> i"
    by (simp_all add: run)
  have "substring line 0 i = take (nat i) line"
    using inv(3) by (auto simp: substring_def clamp_index_def Let_def min_def max_def)
  then have "splitDocDate line = (take (nat i) line, ddmmyyyyToIso (join_chars (rev date)))"
    by (simp add: splitDocDate_def run)
  then show ?thesis using ex1 ex2 run inv by auto
qed

theorem splitDocDate_bounded_witness:
  "splitDocDate ''05082023'' = ([], ''023-82-50'')
   \<and> (\<exists>i date. splitDocDate_loop ''05082023'' 7 [] = (i, date) \<and> None \<notin> set date)"
proof -
  have "splitDocDate ''05082023'' = ([], ''023-82-50'')"
    by code_simp
  moreover have "\<exists>i date. splitDocDate_loop ''05082023'' 7 [] = (i, date) \<and> None \<notin> set date"
    using splitDocDate_bounded [of "''05082023''"] by auto
  ultimately show ?thesis by simp
qed

lemma stepA_at:
  "stateA c = 0 \<Longrightarrow> stepA c l = Continue (c\<lparr>stateA := 1\<rparr>)"
  "stateA c = 1 \<Longrightarrow> stepA c l = Continue (c\<lparr>retA := (retA c)\<lparr>b7 := b7 (retA c) @ [l]\<rparr>, stateA := 2\<rparr>)"
  "stateA c = 2 \<Longrightarrow> stepA c l = (if l = ''yyyy'' then Continue (c\<lparr>stateA := 3\<rparr>) else Continue c)"
  "stateA c = 3 \<Longrightarrow> stepA c l =
     (if l = [] then Continue (c\<lparr>stateA := 4, retA := (retA c)\<lparr>b7 := butlast (b7 (retA c))\<rparr>\<rparr>)
      else Continue (c\<lparr>stateA := 4, retA := (retA c)\<lparr>b7 := b7 (retA c) @ [slice l 0 (- 8)]
             @ [ddmmyyyyToIso (slice_from l (- 8))]\<rparr>\<rparr>))"
  "stateA c = 4 \<Longrightarrow> stepA c l = (if l = ''Tanggal'' then Continue (c\<lparr>stateA := 5\<rparr>) else Continue c)"
  "stateA c = 5 \<Longrightarrow> stepA c l =
     (if l = ''B.9'' then
        (if length (bufferA c) = 0 then Continue (c\<lparr>stateA := 6\<rparr>)
         else Continue (c\<lparr>stateA := 6,
                 retA := (retA c)\<lparr>b8 := b8 (retA c) @ [slice (bufferA c) 0 (- 8),
                    ddmmyyyyToIso (slice_from (bufferA c) (- 8))]\<rparr>,
                 bufferA := []\<rparr>))
      else Continue (c\<lparr>bufferA := bufferA c @ l\<rparr>))"
  "stateA c = 6 \<Longrightarrow> stepA c l = (if l = ''C.1'' then Continue (c\<lparr>stateA := 7\<rparr>) else Continue c)"
  "stateA c = 7 \<Longrightarrow> stepA c l = (if l = '':NPWP'' then Continue (c\<lparr>stateA := 8\<rparr>) else Continue c)"
  "stateA c = 8 \<Longrightarrow> stepA c l =
     (if l = ''Nama Wajib PajakC.2:'' then
        Continue (c\<lparr>stateA := 9, retA := (retA c)\<lparr>c1 := bufferA c\<rparr>, bufferA := []\<rparr>)
      else Continue (c\<lparr>bufferA := bufferA c @ l\<rparr>))"
  "stateA c = 9 \<Longrightarrow> stepA c l = (if l = ''mmyyyy'' then Continue (c\<lparr>stateA := 10\<rparr>) else Continue c)"
  "stateA c = 10 \<Longrightarrow> stepA c l =
     (if l = ''C.4'' then
        Continue (c\<lparr>stateA := 11, retA := (retA c)\<lparr>c3 := ddmmyyyyToIso (bufferA c)\<rparr>, bufferA := []\<rparr>)
      else Continue (c\<lparr>bufferA := bufferA c @ l\<rparr>))"
  "stateA c = 11 \<Longrightarrow> stepA c l =
     (if indexOf l ''Bukti Pemotongan ini.'' > - 1 then Continue (c\<lparr>stateA := 12\<rparr>) else Continue c)"
  "stateA c = 12 \<Longrightarrow> stepA c l = Continue (c\<lparr>retA := (retA c)\<lparr>h1 := l\<rparr>, stateA := 13\<rparr>)"
  "stateA c = 13 \<Longrightarrow> stepA c l =
     (if length l > 4 then Continue (c\<lparr>stateA := 14, retA := (retA c)\<lparr>b1 := l\<rparr>\<rparr>) else Continue c)"
  "stateA c = 14 \<Longrightarrow> stepA c l = Break (c\<lparr>retA := (retA c)\<lparr>b2 := l\<rparr>\<rparr>)"
  "14 < stateA c \<Longrightarrow> stepA c l = Continue c"
  by (simp_all add: stepA_def Let_def)

lemma stateA_cases:
  "stateA c = 0 \<or> stateA c = 1 \<or> stateA c = 2 \<or> stateA c = 3 \<or> stateA c = 4 \<or> stateA c = 5
   \<or> stateA c = 6 \<or> stateA c = 7 \<or> stateA c = 8 \<or> stateA c = 9 \<or> stateA c = 10
   \<or> stateA c = 11 \<or> stateA c = 12 \<or> stateA c = 13 \<or> stateA c = 14 \<or> 14 < stateA c"
  by arith

lemma stepA_Break: "stepA c l = Break c' \<Longrightarrow> stateA c = 14 \<and> stateA c' = 14"
  using stateA_cases [of c] by (elim disjE) (auto simp: stepA_at split: if_splits)

lemma invA_init: "invA initA"
  by (simp add: invA_def initA_def empty_data_def later_defaultA_def)

lemma invA_step: "invA c \<Longrightarrow> invA (unflow (stepA c l))"
  using stateA_cases [of c]
  by (elim disjE) (simp_all add: stepA_at invA_def later_defaultA_def)


lemma loopA_inv: "invA c \<Longrightarrow> invA (loopA c ls)"
proof (induction ls arbitrary: c)
  case Nil
  then show ?case by simp
next
  case (Cons l ls)
  from invA_step [OF Cons.prems, of l] Cons.IH show ?case
    by (cases "stepA c l") simp_all
qed

lemma loopA_append:
  "stateA (loopA c xs) \<noteq> 14 \<Longrightarrow> loopA c (xs @ ys) = loopA (loopA c xs) ys"
proof (induction xs arbitrary: c)
  case Nil
  show ?case by simp
next
  case (Cons x xs)
  show ?case
  proof (cases "stepA c x")
    case (Continue c')
    with Cons show ?thesis by simp
  next
    case (Break c')
    with Cons.prems stepA_Break [OF Break] show ?thesis by simp
  qed
qed

lemma stepA_stuck:
  "stateA c = k \<Longrightarrow> k \<in> anchor_statesA \<Longrightarrow> \<not> anchorA k l \<Longrightarrow>
   \<exists>c'. stepA c l = Continue c' \<and> stateA c' = k \<and> retA c' = retA c"
  by (auto simp: anchor_statesA_def anchorA_def stepA_at indexOf_found)

lemma loopA_stuck:
  "stateA c = k \<Longrightarrow> k \<in> anchor_statesA \<Longrightarrow> \<forall>l\<in>set ls. \<not> anchorA k l \<Longrightarrow>
   stateA (loopA c ls) = k \<and> retA (loopA c ls) = retA c"
proof (induction ls arbitrary: c)
  case Nil
  then show ?case by simp
next
  case (Cons l ls)
  from stepA_stuck [OF Cons.prems(1,2), of l] Cons.prems(3)
  obtain c' where c': "stepA c l = Continue c'" "stateA c' = k" "retA c' = retA c"
    by auto
  from Cons.IH [OF c'(2) Cons.prems(2)] Cons.prems(3) c' show ?case by simp
qed

lemma stepB_at:
  "stateB c < 2 \<Longrightarrow> stepB c l = Continue (c\<lparr>stateB := stateB c + 1\<rparr>)"
  "stateB c = 2 \<Longrightarrow> stepB c l = Continue (c\<lparr>retB := (retB c)\<lparr>h1 := l\<rparr>, stateB := 3\<rparr>)"
  "stateB c = 3 \<Longrightarrow> stepB c l =
     (if l = ''B.1B.2B.3B.4B.5B.6'' then Continue (c\<lparr>stateB := 4\<rparr>) else Continue c)"
  "stateB c = 4 \<Longrightarrow> stepB c l =
     Continue (c\<lparr>stateB := 5,
        retB := (retB c)\<lparr>b1 := (if slice l (- 11) (- 10) = '','' then slice_from l (- 7)
                                  else slice_from l (- 6)),
                          b2 := substring l (indexOf l ''-'' - 2) (indexOf l ''-'' + 7)\<rparr>\<rparr>)"
  "stateB c = 5 \<Longrightarrow> stepB c l = (if l = ''ddmmyyyy'' then Continue (c\<lparr>stateB := 6\<rparr>) else Continue c)"
  "stateB c = 6 \<Longrightarrow> stepB c l =
     (if l = ''B.8'' then
        Continue (c\<lparr>stateB := 8, retB := (retB c)\<lparr>b7 := b7 (retB c) @ [[], [], []]\<rparr>\<rparr>)
      else Continue (c\<lparr>stateB := 7, retB := (retB c)\<lparr>b7 := b7 (retB c) @ [l]\<rparr>\<rparr>))"
  "stateB c = 7 \<Longrightarrow> stepB c l =
     Continue (c\<lparr>stateB := 8,
        retB := (retB c)\<lparr>b7 := b7 (retB c) @ [slice l 0 (- 8)] @
          [join_chars [char_at (slice_from l (- 8)) 1, char_at (slice_from l (- 8)) 2,
             char_at (slice_from l (- 8)) 7, char_at (slice_from l (- 8)) 5, Some CHR ''-'',
             char_at (slice_from l (- 8)) 3, char_at (slice_from l (- 8)) 4, Some CHR ''-'',
             char_at (slice_from l (- 8)) 0, char_at (slice_from l (- 8)) 6]]\<rparr>\<rparr>)"
  "stateB c = 8 \<Longrightarrow> stepB c l = Continue (c\<lparr>stateB := 9\<rparr>)"
  "stateB c = 9 \<Longrightarrow> stepB c l =
     (if prefix ''C. IDENTITAS PEMOTONG'' l then Continue (c\<lparr>stateB := 10\<rparr>) else Continue c)"
  "stateB c = 10 \<Longrightarrow> stepB c l =
     Continue (c\<lparr>stateB := 11,
        retB := (retB c)\<lparr>c1 := join_chars [char_at l 7, char_at l 11, char_at l 14, char_at l 9,
          char_at l 3, char_at l 5, char_at l 12, char_at l 13, char_at l 1, char_at l 6,
          char_at l 2, char_at l 10, char_at l 0, char_at l 8, char_at l 4]\<rparr>\<rparr>)"
  "stateB c = 11 \<Longrightarrow> stepB c l =
     (if l = ''C.2Nama Wajib Pajak:'' then Continue (c\<lparr>stateB := 12\<rparr>) else Continue c)"
  "stateB c = 12 \<Longrightarrow> stepB c l =
     Break (c\<lparr>retB := (retB c)\<lparr>c3 := join_chars [char_at l 1, char_at l 7, char_at l 2,
        char_at l 4, Some CHR ''-'', char_at l 0, char_at l 6, Some CHR ''-'', char_at l 5,
        char_at l 3]\<rparr>\<rparr>)"
  "12 < stateB c \<Longrightarrow> stepB c l = Continue c"
  by (simp_all add: stepB_def Let_def)

lemma stateB_cases:
  "stateB c < 2 \<or> stateB c = 2 \<or> stateB c = 3 \<or> stateB c = 4 \<or> stateB c = 5
   \<or> stateB c = 6 \<or> stateB c = 7 \<or> stateB c = 8 \<or> stateB c = 9 \<or> stateB c = 10
   \<or> stateB c = 11 \<or> stateB c = 12 \<or> 12 < stateB c"
  by arith

lemma stepB_Break: "stepB c l = Break c' \<Longrightarrow> stateB c = 12 \<and> stateB c' = 12"
  using stateB_cases [of c] by (elim disjE) (auto simp: stepB_at split: if_splits)

lemma invB_init: "invB initB"
  by (simp add: invB_def initB_def empty_data_def later_defaultB_def)

lemma invB_step: "invB c \<Longrightarrow> invB (unflow (stepB c l))"
  using stateB_cases [of c]
  by (elim disjE) (simp_all add: stepB_at invB_def later_defaultB_def)

lemma loopB_inv: "invB c \<Longrightarrow> invB (loopB c ls)"
proof (induction ls arbitrary: c)
  case Nil
  then show ?case by simp
next
  case (Cons l ls)
  from invB_step [OF Cons.prems, of l] Cons.IH show ?case
    by (cases "stepB c l") simp_all
qed

lemma loopB_append:
  "stateB (loopB c xs) \<noteq> 12 \<Longrightarrow> loopB c (xs @ ys) = loopB (loopB c xs) ys"
proof (induction xs arbitrary: c)
  case Nil
  show ?case by simp
next
  case (Cons x xs)
  show ?case
  proof (cases "stepB c x")
    case (Continue c')
    with Cons show ?thesis by simp
  next
    case (Break c')
    with Cons.prems stepB_Break [OF Break] show ?thesis by simp
  qed
qed

lemma stepB_stuck:
  "stateB c = k \<Longrightarrow> k \<in> anchor_statesB \<Longrightarrow> \<not> anchorB k l \<Longrightarrow>
   \<exists>c'. stepB c l = Continue c' \<and> stateB c' = k \<and> retB c' = retB c"
  by (auto simp: anchor_statesB_def anchorB_def stepB_at)

lemma loopB_stuck:
  "stateB c = k \<Longrightarrow> k \<in> anchor_statesB \<Longrightarrow> \<forall>l\<in>set ls. \<not> anchorB k l \<Longrightarrow>
   stateB (loopB c ls) = k \<and> retB (loopB c ls) = retB c"
proof (induction ls arbitrary: c)
  case Nil
  then show ?case by simp
next
  case (Cons l ls)
  from stepB_stuck [OF Cons.prems(1,2), of l] Cons.prems(3)
  obtain c' where c': "stepB c l = Continue c'" "stateB c' = k" "retB c' = retB c"
    by auto
  from Cons.IH [OF c'(2) Cons.prems(2)] Cons.prems(3) c' show ?case by simp
qed

lemma invC_init: "invC initC"
  by (simp add: invC_def initC_def)

lemma invC_step: "invC c \<Longrightarrow> \<exists>f. stepC c l = Inr f \<and> invC (unflow f)"
  by (auto simp: invC_def stepC_def Let_def split: list.splits prod.splits)

lemma loopC_total: "invC c \<Longrightarrow> \<exists>c'. loopC c ls = Inr c'"
proof (induction ls arbitrary: c)
  case Nil
  show ?case by simp
next
  case (Cons l ls)
  from invC_step [OF Cons.prems, of l] obtain f where f: "stepC c l = Inr f" "invC (unflow f)"
    by auto
  show ?case
  proof (cases f)
    case (Continue c')
    with f Cons.IH [of c'] show ?thesis by simp
  next
    case (Break c')
    with f show ?thesis by simp
  qed
qed

lemma extractC_total: "\<exists>r. extractCFormatedEbupot data = Inr r"
proof -
  obtain c' where "loopC initC (split_lines (substring_from data (indexOf data ''Bukti Pemotongan ini.''))) = Inr c'"
    using loopC_total [OF invC_init] by blast
  then show ?thesis by (simp add: extractCFormatedEbupot_def)
qed

text \<open>
  Claim C1, as stated, fails: the line that state 6 of Extractor B compares with is
  \<open>B.8\<close>, not \<open>B.9\<close>. On the line \<open>B.9\<close> the machine pushes that line to \<open>b7\<close>
  and moves to state 7.
\<close>

theorem stepB_state6_B9_counterexample:
  "stepB (initB\<lparr>stateB := 6\<rparr>) ''B.9''
     = Continue (initB\<lparr>stateB := 7, retB := empty_data\<lparr>b7 := [''B.9'']\<rparr>\<rparr>)
   \<and> stepB (initB\<lparr>stateB := 6\<rparr>) ''B.9''
     \<noteq> Continue (initB\<lparr>stateB := 8, retB := empty_data\<lparr>b7 := [[], [], []]\<rparr>\<rparr>)
   \<and> extractBFormatedEbupot
       ''PPh Tidak Final\<newline>x\<newline>H1\<newline>B.1B.2B.3B.4B.5B.6\<newline>abc\<newline>ddmmyyyy\<newline>B.9''
     = empty_data\<lparr>h1 := ''H1'', b1 := ''abc'', b2 := ''abc'', b7 := [''B.9'']\<rparr>"
proof -
  have a: "stepB (initB\<lparr>stateB := 6\<rparr>) ''B.9''
     = Continue (initB\<lparr>stateB := 7, retB := empty_data\<lparr>b7 := [''B.9'']\<rparr>\<rparr>)"
    by (simp add: stepB_at initB_def empty_data_def)
  have b: "extractBFormatedEbupot
       ''PPh Tidak Final\<newline>x\<newline>H1\<newline>B.1B.2B.3B.4B.5B.6\<newline>abc\<newline>ddmmyyyy\<newline>B.9''
     = empty_data\<lparr>h1 := ''H1'', b1 := ''abc'', b2 := ''abc'', b7 := [''B.9'']\<rparr>"
    by code_simp
  have c: "stepB (initB\<lparr>stateB := 6\<rparr>) ''B.9''
     \<noteq> Continue (initB\<lparr>stateB := 8, retB := empty_data\<lparr>b7 := [[], [], []]\<rparr>\<rparr>)"
    using a by (simp add: initB_def)
  show ?thesis by (intro conjI a b c)
qed

text \<open>
  Claim C1, amended. In state 6 of Extractor B, if the line equals \<open>B.8\<close> then three
  empty strings are pushed to \<open>b7\<close> and the machine jumps to state 8; for any other
  line, that line is pushed to \<open>b7\<close> and the machine moves to state 7.
\<close>

theorem stepB_state6:
  "stateB c = 6 \<Longrightarrow>
   stepB c line =
     (if line = ''B.8'' then
        Continue (c\<lparr>stateB := 8, retB := (retB c)\<lparr>b7 := b7 (retB c) @ ['''', '''', '''']\<rparr>\<rparr>)
      else Continue (c\<lparr>stateB := 7, retB := (retB c)\<lparr>b7 := b7 (retB c) @ [line]\<rparr>\<rparr>))"
  by (simp add: stepB_at)

theorem stepB_state6_witness:
  "stateB (initB\<lparr>stateB := 6\<rparr>) = 6
   \<and> stepB (initB\<lparr>stateB := 6\<rparr>) ''B.8''
       = Continue (initB\<lparr>stateB := 8, retB := empty_data\<lparr>b7 := ['''', '''', '''']\<rparr>\<rparr>)
   \<and> stepB (initB\<lparr>stateB := 6\<rparr>) ''INV 7''
       = Continue (initB\<lparr>stateB := 7, retB := empty_data\<lparr>b7 := [''INV 7'']\<rparr>\<rparr>)"
proof -
  have s: "stateB (initB\<lparr>stateB := 6\<rparr>) = 6" by simp
  show ?thesis
    using stepB_state6 [OF s, of "''B.8''"] stepB_state6 [OF s, of "''INV 7''"]
    by (simp add: initB_def empty_data_def)
qed

text \<open>
  Claim C2. \<open>getEbupotFormatedSignature\<close> returns, for every text, exactly one of the
  five tags, decided by the first test that holds in the order A, B, C, Z, U, where the
  tests for A, B and C are that the text contains the respective anchor and the test for
  Z is that the trimmed text is empty, that is, that every character is white space.
\<close>

theorem getEbupotFormatedSignature_priority:
  "getEbupotFormatedSignature data =
     (if sublist ''FORMULIR BPBS\<newline>H.1\<newline>H.2\<newline>H.3'' data then ''A''
      else if sublist ''FORMULIR BPBS\<newline>Bukti Pemotongan'' data then ''B''
      else if sublist ''FORMULIR BPBS\<newline>H.1\<newline>NOMOR'' data then ''C''
      else if trim data = [] then ''Z''
      else ''U'')
   \<and> getEbupotFormatedSignature data \<in> {''A'', ''B'', ''C'', ''Z'', ''U''}
   \<and> (trim data = [] \<longleftrightarrow> (\<forall>c\<in>set data. is_space c))"
  by (simp add: getEbupotFormatedSignature_def indexOf_found trim_empty)

theorem getEbupotFormatedSignature_priority_witness:
  "getEbupotFormatedSignature
     ''FORMULIR BPBS\<newline>H.1\<newline>NOMOR FORMULIR BPBS\<newline>Bukti Pemotongan'' = ''B''
   \<and> getEbupotFormatedSignature '' \<newline> '' = ''Z''"
proof -
  have a: "\<not> sublist ''FORMULIR BPBS\<newline>H.1\<newline>H.2\<newline>H.3''
      ''FORMULIR BPBS\<newline>H.1\<newline>NOMOR FORMULIR BPBS\<newline>Bukti Pemotongan''"
    by code_simp
  have b: "sublist ''FORMULIR BPBS\<newline>Bukti Pemotongan''
      ''FORMULIR BPBS\<newline>H.1\<newline>NOMOR FORMULIR BPBS\<newline>Bukti Pemotongan''"
    by code_simp
  have c: "\<not> sublist ''FORMULIR BPBS\<newline>H.1\<newline>H.2\<newline>H.3'' '' \<newline> ''"
    "\<not> sublist ''FORMULIR BPBS\<newline>Bukti Pemotongan'' '' \<newline> ''"
    "\<not> sublist ''FORMULIR BPBS\<newline>H.1\<newline>NOMOR'' '' \<newline> ''"
    "trim '' \<newline> '' = []"
    by code_simp+
  show ?thesis
    using getEbupotFormatedSignature_priority
            [of "''FORMULIR BPBS\<newline>H.1\<newline>NOMOR FORMULIR BPBS\<newline>Bukti Pemotongan''"]
          getEbupotFormatedSignature_priority [of "'' \<newline> ''"]
    by (simp only: a b c if_True if_False simp_thms)
qed

lemma join_chars_Some: "join_chars (map Some xs) = xs"
  by (induction xs) simp_all

text \<open>
  Claim C4. State 10 of Extractor B assigns to \<open>c1\<close> the characters of the line read
  through the index list \<open>npwp_order\<close>, position \<open>k\<close> of the output being the
  character at index \<open>npwp_order ! k\<close> of the line (on a line of at least 15 characters
  every read is in range). The index list is a bijection on the positions 0 to 14:
  no index occurs twice and none is left out, so on a line of 15 characters \<open>c1\<close> is a
  rearrangement of the line.
\<close>

theorem stepB_npwp_permutation:
  "(stateB c = 10 \<longrightarrow>
      stepB c line = Continue (c\<lparr>stateB := 11,
        retB := (retB c)\<lparr>c1 := join_chars (map (\<lambda>k. char_at line (int k)) npwp_order)\<rparr>\<rparr>))
   \<and> (15 \<le> length line \<longrightarrow>
        join_chars (map (\<lambda>k. char_at line (int k)) npwp_order) = map (\<lambda>k. line ! k) npwp_order)
   \<and> (length line = 15 \<longrightarrow>
        mset (join_chars (map (\<lambda>k. char_at line (int k)) npwp_order)) = mset line)
   \<and> length npwp_order = 15 \<and> distinct npwp_order \<and> set npwp_order = {0..<15}
   \<and> bij_betw (\<lambda>k. npwp_order ! k) {0..<15} {0..<15}"
proof -
  have step: "stateB c = 10 \<longrightarrow>
      stepB c line = Continue (c\<lparr>stateB := 11,
        retB := (retB c)\<lparr>c1 := join_chars (map (\<lambda>k. char_at line (int k)) npwp_order)\<rparr>\<rparr>)"
    by (simp add: stepB_at npwp_order_def)
  have len: "length npwp_order = 15" by (simp add: npwp_order_def)
  have dist: "distinct npwp_order" by (simp add: npwp_order_def)
  have "set npwp_order \<subseteq> {0..<15}" by (simp add: npwp_order_def)
  moreover have "card (set npwp_order) = 15"
    using dist len by (simp add: distinct_card)
  ultimately have set: "set npwp_order = {0..<15}"
    by (intro card_subset_eq) simp_all
  have perm: "mset npwp_order = mset [0..<15]"
    using dist set by (metis distinct_upt set_eq_iff_mset_eq_distinct set_upt)
  have rd: "15 \<le> length line \<longrightarrow>
      map (\<lambda>k. char_at line (int k)) npwp_order = map Some (map (\<lambda>k. line ! k) npwp_order)"
    by (simp add: npwp_order_def char_at_def)
  have in_range: "15 \<le> length line \<longrightarrow>
        join_chars (map (\<lambda>k. char_at line (int k)) npwp_order) = map (\<lambda>k. line ! k) npwp_order"
    using rd join_chars_Some by metis
  have ms: "length line = 15 \<longrightarrow>
        mset (join_chars (map (\<lambda>k. char_at line (int k)) npwp_order)) = mset line"
  proof
    assume l: "length line = 15"
    then have "mset (join_chars (map (\<lambda>k. char_at line (int k)) npwp_order))
        = mset (map (\<lambda>k. line ! k) npwp_order)"
      using in_range by simp
    also have "\<dots> = image_mset (\<lambda>k. line ! k) (mset npwp_order)" by simp
    also have "\<dots> = image_mset (\<lambda>k. line ! k) (mset [0..<length line])"
      by (simp only: perm l)
    also have "\<dots> = mset (map (\<lambda>k. line ! k) [0..<length line])" by simp
    also have "\<dots> = mset line" by (simp only: map_nth)
    finally show "mset (join_chars (map (\<lambda>k. char_at line (int k)) npwp_order)) = mset line" .
  qed
  have "bij_betw (\<lambda>k. npwp_order ! k) {0..<length npwp_order} (set npwp_order)"
    by (rule bij_betw_nth [OF dist]) (simp_all add: atLeast0LessThan)
  then have bij: "bij_betw (\<lambda>k. npwp_order ! k) {0..<15} {0..<15}"
    by (simp only: len set)
  show ?thesis using step in_range ms len dist set bij by blast
qed

theorem stepB_npwp_permutation_witness:
  "stepB (initB\<lparr>stateB := 10\<rparr>) ''abcdefghijklmno''
     = Continue (initB\<lparr>stateB := 11, retB := empty_data\<lparr>c1 := ''hlojdfmnbgckaie''\<rparr>\<rparr>)"
proof -
  have s: "stateB (initB\<lparr>stateB := 10\<rparr>) = 10" by simp
  have l: "15 \<le> length ''abcdefghijklmno''" by simp
  have m: "map (\<lambda>k. ''abcdefghijklmno'' ! k) npwp_order = ''hlojdfmnbgckaie''"
    by (simp add: npwp_order_def)
  show ?thesis
    using stepB_npwp_permutation [of "initB\<lparr>stateB := 10\<rparr>" "''abcdefghijklmno''"] s l m
    by (simp add: initB_def empty_data_def)
qed

text \<open>
  Claim C6. For every text and every format tag other than \<open>A\<close>, \<open>B\<close> and \<open>C\<close>,
  \<open>extractEbupot\<close> returns the empty object, with no field populated, and no error.
\<close>

theorem extractEbupot_default:
  "format \<notin> {''A'', ''B'', ''C''} \<Longrightarrow> extractEbupot data format = Inr EmptyObject"
  by (simp add: extractEbupot_def)

theorem extractEbupot_default_witness:
  "extractEbupot ''FORMULIR'' ''U'' = Inr EmptyObject
   \<and> extractEbupot ''  '' ''Z'' = Inr EmptyObject"
proof -
  have u: "''U'' \<notin> {''A'', ''B'', ''C''}" by simp
  have z: "''Z'' \<notin> {''A'', ''B'', ''C''}" by simp
  show ?thesis
    using extractEbupot_default [OF u, of "''FORMULIR''"] extractEbupot_default [OF z, of "''  ''"]
    by simp
qed












text \<open>
  Claim C10. When the entry anchor of an extractor does not occur in the text,
  \<open>indexOf\<close> returns \<open>-1\<close> and \<open>substring(-1)\<close> is the whole text, so the loop runs
  over the lines of the whole text from the first one; fields are still populated when
  the lines drive the machine there, as the three evaluated texts show.
\<close>

theorem missing_entry_anchor_runs_whole_text:
  "(\<not> sublist ''Dokumen Referensi'' data \<longrightarrow>
      indexOf data ''Dokumen Referensi'' = - 1
      \<and> substring_from data (indexOf data ''Dokumen Referensi'') = data
      \<and> extractAFormatedEbupot data = retA (loopA initA (split_lines data)))
   \<and> (\<not> sublist ''PPh Tidak Final'' data \<longrightarrow>
      indexOf data ''PPh Tidak Final'' = - 1
      \<and> substring_from data (indexOf data ''PPh Tidak Final'') = data
      \<and> extractBFormatedEbupot data = retB (loopB initB (split_lines data)))
   \<and> (\<not> sublist ''Bukti Pemotongan ini.'' data \<longrightarrow>
      indexOf data ''Bukti Pemotongan ini.'' = - 1
      \<and> substring_from data (indexOf data ''Bukti Pemotongan ini.'') = data
      \<and> extractCFormatedEbupot data = map_sum id retC (loopC initC (split_lines data)))
   \<and> extractAFormatedEbupot ''a\<newline>b\<newline>yyyy\<newline>DOC 05082023''
        = empty_data\<lparr>b7 := [''b'', ''DOC '', ''2023-08-05'']\<rparr>
   \<and> extractBFormatedEbupot ''a\<newline>b\<newline>c'' = empty_data\<lparr>h1 := ''c''\<rparr>
   \<and> extractCFormatedEbupot ''a\<newline>b c'' = Inr (empty_data\<lparr>h1 := ''bc''\<rparr>)"
proof -
  have a: "\<not> sublist ''Dokumen Referensi'' data \<longrightarrow>
      indexOf data ''Dokumen Referensi'' = - 1
      \<and> substring_from data (indexOf data ''Dokumen Referensi'') = data
      \<and> extractAFormatedEbupot data = retA (loopA initA (split_lines data))"
    by (simp add: indexOf_missing substring_from_negative extractAFormatedEbupot_def)
  have b: "\<not> sublist ''PPh Tidak Final'' data \<longrightarrow>
      indexOf data ''PPh Tidak Final'' = - 1
      \<and> substring_from data (indexOf data ''PPh Tidak Final'') = data
      \<and> extractBFormatedEbupot data = retB (loopB initB (split_lines data))"
    by (simp add: indexOf_missing substring_from_negative extractBFormatedEbupot_def)
  have c: "\<not> sublist ''Bukti Pemotongan ini.'' data \<longrightarrow>
      indexOf data ''Bukti Pemotongan ini.'' = - 1
      \<and> substring_from data (indexOf data ''Bukti Pemotongan ini.'') = data
      \<and> extractCFormatedEbupot data = map_sum id retC (loopC initC (split_lines data))"
    by (simp add: indexOf_missing substring_from_negative extractCFormatedEbupot_def)
  have ea: "extractAFormatedEbupot ''a\<newline>b\<newline>yyyy\<newline>DOC 05082023''
        = empty_data\<lparr>b7 := [''b'', ''DOC '', ''2023-08-05'']\<rparr>"
    by code_simp
  have eb: "extractBFormatedEbupot ''a\<newline>b\<newline>c'' = empty_data\<lparr>h1 := ''c''\<rparr>"
    by code_simp
  have ec: "extractCFormatedEbupot ''a\<newline>b c'' = Inr (empty_data\<lparr>h1 := ''bc''\<rparr>)"
    by code_simp
  show ?thesis by (intro conjI a b c ea eb ec)
qed

theorem missing_entry_anchor_runs_whole_text_witness:
  "retA (loopA initA (split_lines ''a\<newline>b\<newline>yyyy\<newline>DOC 05082023''))
      = empty_data\<lparr>b7 := [''b'', ''DOC '', ''2023-08-05'']\<rparr>
   \<and> retB (loopB initB (split_lines ''a\<newline>b\<newline>c'')) = empty_data\<lparr>h1 := ''c''\<rparr>
   \<and> map_sum id retC (loopC initC (split_lines ''a\<newline>b c'')) = Inr (empty_data\<lparr>h1 := ''bc''\<rparr>)"
proof -
  have na: "\<not> sublist ''Dokumen Referensi'' ''a\<newline>b\<newline>yyyy\<newline>DOC 05082023''"
    by code_simp
  have nb: "\<not> sublist ''PPh Tidak Final'' ''a\<newline>b\<newline>c''"
    by code_simp
  have nc: "\<not> sublist ''Bukti Pemotongan ini.'' ''a\<newline>b c''"
    by code_simp
  show ?thesis
    using missing_entry_anchor_runs_whole_text [of "''a\<newline>b\<newline>yyyy\<newline>DOC 05082023''"]
          missing_entry_anchor_runs_whole_text [of "''a\<newline>b\<newline>c''"]
          missing_entry_anchor_runs_whole_text [of "''a\<newline>b c''"]
          na nb nc
    by metis
qed


lemma ddmmyyyyToIso_nonempty: "ddmmyyyyToIso s \<noteq> []"
  by (simp add: ddmmyyyyToIso_def Let_def)

lemma extractA_split:
  "linesA data = pre @ rest \<Longrightarrow> stateA (loopA initA pre) \<noteq> 14 \<Longrightarrow>
   extractAFormatedEbupot data = retA (loopA (loopA initA pre) rest)"
  by (simp add: extractAFormatedEbupot_def linesA_def loopA_append)

lemma stepA_kept:
  "stateA c \<le> stateA (unflow (stepA c l))
   \<and> (4 \<le> stateA c \<longrightarrow> b7 (retA (unflow (stepA c l))) = b7 (retA c))
   \<and> (6 \<le> stateA c \<longrightarrow> b8 (retA (unflow (stepA c l))) = b8 (retA c))
   \<and> (9 \<le> stateA c \<longrightarrow> c1 (retA (unflow (stepA c l))) = c1 (retA c))
   \<and> (11 \<le> stateA c \<longrightarrow> c3 (retA (unflow (stepA c l))) = c3 (retA c))
   \<and> (13 \<le> stateA c \<longrightarrow> h1 (retA (unflow (stepA c l))) = h1 (retA c))
   \<and> (14 \<le> stateA c \<longrightarrow> b1 (retA (unflow (stepA c l))) = b1 (retA c))"
  using stateA_cases [of c] by (elim disjE) (simp_all add: stepA_at)

lemma loopA_kept:
  "stateA c \<le> stateA (loopA c ls)
   \<and> (4 \<le> stateA c \<longrightarrow> b7 (retA (loopA c ls)) = b7 (retA c))
   \<and> (6 \<le> stateA c \<longrightarrow> b8 (retA (loopA c ls)) = b8 (retA c))
   \<and> (9 \<le> stateA c \<longrightarrow> c1 (retA (loopA c ls)) = c1 (retA c))
   \<and> (11 \<le> stateA c \<longrightarrow> c3 (retA (loopA c ls)) = c3 (retA c))
   \<and> (13 \<le> stateA c \<longrightarrow> h1 (retA (loopA c ls)) = h1 (retA c))
   \<and> (14 \<le> stateA c \<longrightarrow> b1 (retA (loopA c ls)) = b1 (retA c))"
proof (induction ls arbitrary: c)
  case Nil
  show ?case by simp
next
  case (Cons l ls)
  show ?case
  proof (cases "stepA c l")
    case (Continue c')
    from stepA_kept [of c l] Cons.IH [of c'] show ?thesis
      by (simp add: Continue)
  next
    case (Break c')
    from stepA_kept [of c l] show ?thesis
      by (simp add: Break)
  qed
qed

lemma loopA_accumulate:
  "stateA c = k \<Longrightarrow> k \<in> {5, 8, 10} \<Longrightarrow> \<forall>l\<in>set ls. \<not> anchorA k l \<Longrightarrow>
   loopA c ls = c\<lparr>bufferA := bufferA c @ concat ls\<rparr>"
proof (induction ls arbitrary: c)
  case Nil
  show ?case by simp
next
  case (Cons l ls)
  have step: "stepA c l = Continue (c\<lparr>bufferA := bufferA c @ l\<rparr>)"
    using Cons.prems by (auto simp: stepA_at anchorA_def)
  have "loopA (c\<lparr>bufferA := bufferA c @ l\<rparr>) ls =
      c\<lparr>bufferA := bufferA c @ l\<rparr>\<lparr>bufferA := bufferA (c\<lparr>bufferA := bufferA c @ l\<rparr>) @ concat ls\<rparr>"
    using Cons.prems by (intro Cons.IH) simp_all
  then show ?case by (simp add: step)
qed

lemma runA_state2:
  assumes "stateA c = 2" and "length (b7 (retA c)) \<le> 1"
  shows "b7 (retA (loopA c (''yyyy'' # l # rest))) =
     (if l = [] then [] else b7 (retA c) @ [slice l 0 (- 8), ddmmyyyyToIso (slice_from l (- 8))])"
proof -
  have bl: "butlast (b7 (retA c)) = []"
    using assms(2) by (cases "b7 (retA c)") simp_all
  define c4 where "c4 = unflow (stepA (c\<lparr>stateA := 3\<rparr>) l)"
  have run: "loopA c (''yyyy'' # l # rest) = loopA c4 rest"
    using assms(1) by (simp add: stepA_at c4_def)
  have "4 \<le> stateA c4" by (simp add: c4_def stepA_at)
  then have "b7 (retA (loopA c4 rest)) = b7 (retA c4)"
    using loopA_kept [of c4 rest] by simp
  moreover have "b7 (retA c4) =
     (if l = [] then [] else b7 (retA c) @ [slice l 0 (- 8), ddmmyyyyToIso (slice_from l (- 8))])"
    by (simp add: c4_def stepA_at bl)
  ultimately show ?thesis by (simp only: run)
qed

lemma runA_state5:
  assumes "stateA c = 4" and "bufferA c = []" and "b8 (retA c) = []"
    and "''B.9'' \<notin> set ls"
  shows "b8 (retA (loopA c (''Tanggal'' # ls @ ''B.9'' # rest))) =
     (if concat ls = [] then []
      else [slice (concat ls) 0 (- 8), ddmmyyyyToIso (slice_from (concat ls) (- 8))])"
proof -
  define c5 where "c5 = c\<lparr>stateA := 5\<rparr>"
  define c5' where "c5' = c5\<lparr>bufferA := concat ls\<rparr>"
  define c6 where "c6 = unflow (stepA c5' ''B.9'')"
  have s5: "stateA c5 = 5" by (simp add: c5_def)
  have "loopA c5 ls = c5\<lparr>bufferA := bufferA c5 @ concat ls\<rparr>"
    using s5 assms(4) by (intro loopA_accumulate) (auto simp: anchorA_def)
  then have acc: "loopA c5 ls = c5'"
    using assms(2) by (simp add: c5'_def c5_def)
  have "loopA c (''Tanggal'' # ls @ ''B.9'' # rest) = loopA c5 (ls @ ''B.9'' # rest)"
    using assms(1) by (simp add: stepA_at c5_def)
  also have "\<dots> = loopA c5' (''B.9'' # rest)"
    using acc by (simp add: loopA_append c5'_def c5_def)
  also have "\<dots> = loopA c6 rest"
    by (simp add: c6_def c5'_def c5_def stepA_at)
  finally have run: "loopA c (''Tanggal'' # ls @ ''B.9'' # rest) = loopA c6 rest" .
  have "6 \<le> stateA c6" by (simp add: c6_def c5'_def c5_def stepA_at)
  then have "b8 (retA (loopA c6 rest)) = b8 (retA c6)"
    using loopA_kept [of c6 rest] by simp
  moreover have "b8 (retA c6) =
     (if concat ls = [] then []
      else [slice (concat ls) 0 (- 8), ddmmyyyyToIso (slice_from (concat ls) (- 8))])"
    using assms(3) by (simp add: c6_def c5'_def c5_def stepA_at)
  ultimately show ?thesis by (simp only: run)
qed

lemma runA_state8:
  assumes "stateA c = 7" and "bufferA c = []" and "''Nama Wajib PajakC.2:'' \<notin> set ls"
  shows "c1 (retA (loopA c ('':NPWP'' # ls @ ''Nama Wajib PajakC.2:'' # rest))) = concat ls"
proof -
  define c8 where "c8 = c\<lparr>stateA := 8\<rparr>"
  define c8' where "c8' = c8\<lparr>bufferA := concat ls\<rparr>"
  define c9 where "c9 = unflow (stepA c8' ''Nama Wajib PajakC.2:'')"
  have s8: "stateA c8 = 8" by (simp add: c8_def)
  have "loopA c8 ls = c8\<lparr>bufferA := bufferA c8 @ concat ls\<rparr>"
    using s8 assms(3) by (intro loopA_accumulate) (auto simp: anchorA_def)
  then have acc: "loopA c8 ls = c8'"
    using assms(2) by (simp add: c8'_def c8_def)
  have "loopA c ('':NPWP'' # ls @ ''Nama Wajib PajakC.2:'' # rest)
      = loopA c8 (ls @ ''Nama Wajib PajakC.2:'' # rest)"
    using assms(1) by (simp add: stepA_at c8_def)
  also have "\<dots> = loopA c8' (''Nama Wajib PajakC.2:'' # rest)"
    using acc by (simp add: loopA_append c8'_def c8_def)
  also have "\<dots> = loopA c9 rest"
    by (simp add: c9_def c8'_def c8_def stepA_at)
  finally have run: "loopA c ('':NPWP'' # ls @ ''Nama Wajib PajakC.2:'' # rest) = loopA c9 rest" .
  have "9 \<le> stateA c9" by (simp add: c9_def c8'_def c8_def stepA_at)
  then have "c1 (retA (loopA c9 rest)) = c1 (retA c9)"
    using loopA_kept [of c9 rest] by simp
  moreover have "c1 (retA c9) = concat ls"
    by (simp add: c9_def c8'_def c8_def stepA_at)
  ultimately show ?thesis by (simp only: run)
qed

lemma runA_state10:
  assumes "stateA c = 9" and "bufferA c = []" and "''C.4'' \<notin> set ls"
  shows "c3 (retA (loopA c (''mmyyyy'' # ls @ ''C.4'' # rest))) = ddmmyyyyToIso (concat ls)"
proof -
  define c10 where "c10 = c\<lparr>stateA := 10\<rparr>"
  define c10' where "c10' = c10\<lparr>bufferA := concat ls\<rparr>"
  define c11 where "c11 = unflow (stepA c10' ''C.4'')"
  have s10: "stateA c10 = 10" by (simp add: c10_def)
  have "loopA c10 ls = c10\<lparr>bufferA := bufferA c10 @ concat ls\<rparr>"
    using s10 assms(3) by (intro loopA_accumulate) (auto simp: anchorA_def)
  then have acc: "loopA c10 ls = c10'"
    using assms(2) by (simp add: c10'_def c10_def)
  have "loopA c (''mmyyyy'' # ls @ ''C.4'' # rest) = loopA c10 (ls @ ''C.4'' # rest)"
    using assms(1) by (simp add: stepA_at c10_def)
  also have "\<dots> = loopA c10' (''C.4'' # rest)"
    using acc by (simp add: loopA_append c10'_def c10_def)
  also have "\<dots> = loopA c11 rest"
    by (simp add: c11_def c10'_def c10_def stepA_at)
  finally have run: "loopA c (''mmyyyy'' # ls @ ''C.4'' # rest) = loopA c11 rest" .
  have "11 \<le> stateA c11" by (simp add: c11_def c10'_def c10_def stepA_at)
  then have "c3 (retA (loopA c11 rest)) = c3 (retA c11)"
    using loopA_kept [of c11 rest] by simp
  moreover have "c3 (retA c11) = ddmmyyyyToIso (concat ls)"
    by (simp add: c11_def c10'_def c10_def stepA_at)
  ultimately show ?thesis by (simp only: run)
qed

lemma runA_state11:
  assumes "stateA c = 11" and "sublist ''Bukti Pemotongan ini.'' a"
  shows "h1 (retA (loopA c (a # l # rest))) = l"
proof -
  define c13 where "c13 = c\<lparr>retA := (retA c)\<lparr>h1 := l\<rparr>, stateA := 13\<rparr>"
  have run: "loopA c (a # l # rest) = loopA c13 rest"
    using assms by (simp add: stepA_at indexOf_found c13_def)
  have "13 \<le> stateA c13" by (simp add: c13_def)
  then have "h1 (retA (loopA c13 rest)) = h1 (retA c13)"
    using loopA_kept [of c13 rest] by simp
  moreover have "h1 (retA c13) = l"
    by (simp add: c13_def)
  ultimately show ?thesis by (simp only: run)
qed

lemma runA_state13:
  assumes "stateA c = 13" and "4 < length a"
  shows "b1 (retA (loopA c (a # rest))) = a"
proof -
  define c14 where "c14 = c\<lparr>stateA := 14, retA := (retA c)\<lparr>b1 := a\<rparr>\<rparr>"
  have run: "loopA c (a # rest) = loopA c14 rest"
    using assms by (simp add: stepA_at c14_def)
  have "14 \<le> stateA c14" by (simp add: c14_def)
  then have "b1 (retA (loopA c14 rest)) = b1 (retA c14)"
    using loopA_kept [of c14 rest] by simp
  moreover have "b1 (retA c14) = a"
    by (simp add: c14_def)
  ultimately show ?thesis by (simp only: run)
qed

lemma extractB_split:
  "linesB data = pre @ rest \<Longrightarrow> stateB (loopB initB pre) \<noteq> 12 \<Longrightarrow>
   extractBFormatedEbupot data = retB (loopB (loopB initB pre) rest)"
  by (simp add: extractBFormatedEbupot_def linesB_def loopB_append)

lemma stepB_kept:
  "stateB c \<le> stateB (unflow (stepB c l))
   \<and> (5 \<le> stateB c \<longrightarrow> b1 (retB (unflow (stepB c l))) = b1 (retB c)
        \<and> b2 (retB (unflow (stepB c l))) = b2 (retB c))
   \<and> (8 \<le> stateB c \<longrightarrow> b7 (retB (unflow (stepB c l))) = b7 (retB c))
   \<and> (11 \<le> stateB c \<longrightarrow> c1 (retB (unflow (stepB c l))) = c1 (retB c))
   \<and> (b7 (retB c) \<noteq> [] \<longrightarrow> b7 (retB (unflow (stepB c l))) \<noteq> [])"
  using stateB_cases [of c] by (elim disjE) (simp_all add: stepB_at)

lemma loopB_kept:
  "stateB c \<le> stateB (loopB c ls)
   \<and> (5 \<le> stateB c \<longrightarrow> b1 (retB (loopB c ls)) = b1 (retB c)
        \<and> b2 (retB (loopB c ls)) = b2 (retB c))
   \<and> (8 \<le> stateB c \<longrightarrow> b7 (retB (loopB c ls)) = b7 (retB c))
   \<and> (11 \<le> stateB c \<longrightarrow> c1 (retB (loopB c ls)) = c1 (retB c))
   \<and> (b7 (retB c) \<noteq> [] \<longrightarrow> b7 (retB (loopB c ls)) \<noteq> [])"
proof (induction ls arbitrary: c)
  case Nil
  show ?case by simp
next
  case (Cons l ls)
  show ?case
  proof (cases "stepB c l")
    case (Continue c')
    from stepB_kept [of c l] Cons.IH [of c'] show ?thesis
      by (simp add: Continue)
  next
    case (Break c')
    from stepB_kept [of c l] show ?thesis
      by (simp add: Break)
  qed
qed

lemma indexOf_from_bound:
  "indexOf_from s sub i = - 1 \<or>
   (int i \<le> indexOf_from s sub i \<and> indexOf_from s sub i + int (length sub) \<le> int i + int (length s))"
proof (induction s arbitrary: i)
  case Nil
  show ?case by simp
next
  case (Cons c cs)
  show ?case
  proof (cases "prefix sub (c # cs)")
    case True
    then have "length sub \<le> length (c # cs)" by (rule prefix_length_le)
    with True show ?thesis by simp
  next
    case False
    with Cons.IH [of "Suc i"] show ?thesis by auto
  qed
qed

lemma indexOf_bound:
  "indexOf s sub = - 1 \<or> (0 \<le> indexOf s sub \<and> indexOf s sub + int (length sub) \<le> int (length s))"
  using indexOf_from_bound [of s sub 0] by (simp add: indexOf_def)

lemma slice_from_nonempty: "a < 0 \<Longrightarrow> (slice_from l a \<noteq> []) = (l \<noteq> [])"
  by (cases l) (auto simp: slice_from_def slice_def slice_index_def Let_def)

lemma slice_comma_length: "slice l (- 11) (- 10) = '','' \<Longrightarrow> l \<noteq> []"
  by (auto simp: slice_def slice_index_def Let_def)

lemma substring_around_dash:
  "(substring l (indexOf l ''-'' - 2) (indexOf l ''-'' + 7) \<noteq> []) = (l \<noteq> [])"
proof (cases l)
  case Nil
  then show ?thesis by (simp add: substring_def clamp_index_def Let_def)
next
  case (Cons x xs)
  define p where "p = indexOf l ''-''"
  have "p = - 1 \<or> (0 \<le> p \<and> p + 1 \<le> int (length l))"
    using indexOf_bound [of l "''-''"] by (simp add: p_def)
  then have lt: "clamp_index (p - 2) (length l) < clamp_index (p + 7) (length l)"
    using Cons by (auto simp: clamp_index_def)
  have "clamp_index (p + 7) (length l) \<le> length l"
    by (simp add: clamp_index_def)
  with lt have "clamp_index (p - 2) (length l) < length l"
    by simp
  with lt have "substring l (p - 2) (p + 7) \<noteq> []"
    by (simp add: substring_def Let_def min_def max_def)
  then show ?thesis using Cons by (simp add: p_def)
qed

lemma join_chars_nonempty: "Some c \<in> set xs \<Longrightarrow> join_chars xs \<noteq> []"
  by (induction xs rule: join_chars.induct) auto

lemma runB_state3:
  assumes "stateB c = 3"
  shows "b1 (retB (loopB c (''B.1B.2B.3B.4B.5B.6'' # l # rest))) =
       (if slice l (- 11) (- 10) = '','' then slice_from l (- 7) else slice_from l (- 6))
     \<and> b2 (retB (loopB c (''B.1B.2B.3B.4B.5B.6'' # l # rest))) =
       substring l (indexOf l ''-'' - 2) (indexOf l ''-'' + 7)"
proof -
  define c5 where "c5 = unflow (stepB (c\<lparr>stateB := 4\<rparr>) l)"
  have run: "loopB c (''B.1B.2B.3B.4B.5B.6'' # l # rest) = loopB c5 rest"
    using assms by (simp add: stepB_at c5_def)
  have "5 \<le> stateB c5" by (simp add: c5_def stepB_at)
  then have "b1 (retB (loopB c5 rest)) = b1 (retB c5)" "b2 (retB (loopB c5 rest)) = b2 (retB c5)"
    using loopB_kept [of c5 rest] by simp_all
  moreover have "b1 (retB c5) =
       (if slice l (- 11) (- 10) = '','' then slice_from l (- 7) else slice_from l (- 6))"
    "b2 (retB c5) = substring l (indexOf l ''-'' - 2) (indexOf l ''-'' + 7)"
    by (simp_all add: c5_def stepB_at)
  ultimately show ?thesis by (simp only: run)
qed

lemma runB_state5:
  assumes "stateB c = 5"
  shows "b7 (retB (loopB c (''ddmmyyyy'' # l # rest))) \<noteq> []"
proof -
  define c7 where "c7 = unflow (stepB (c\<lparr>stateB := 6\<rparr>) l)"
  have run: "loopB c (''ddmmyyyy'' # l # rest) = loopB c7 rest"
    using assms by (simp add: stepB_at c7_def)
  have "b7 (retB c7) \<noteq> []" by (simp add: c7_def stepB_at)
  then have "b7 (retB (loopB c7 rest)) \<noteq> []"
    using loopB_kept [of c7 rest] by simp
  then show ?thesis unfolding run .
qed

lemma runB_state5_B8:
  assumes "stateB c = 5" and "b7 (retB c) = []"
  shows "b7 (retB (loopB c (''ddmmyyyy'' # ''B.8'' # rest))) = [[], [], []]"
proof -
  define c8 where "c8 = c\<lparr>stateB := 8, retB := (retB c)\<lparr>b7 := [[], [], []]\<rparr>\<rparr>"
  have run: "loopB c (''ddmmyyyy'' # ''B.8'' # rest) = loopB c8 rest"
    using assms by (simp add: stepB_at c8_def)
  have "8 \<le> stateB c8" by (simp add: c8_def)
  then have "b7 (retB (loopB c8 rest)) = b7 (retB c8)"
    using loopB_kept [of c8 rest] by simp
  moreover have "b7 (retB c8) = [[], [], []]" by (simp add: c8_def)
  ultimately show ?thesis by (simp only: run)
qed

lemma runB_state9:
  assumes "stateB c = 9" and "prefix ''C. IDENTITAS PEMOTONG'' a"
  shows "c1 (retB (loopB c (a # l # rest))) =
     join_chars (map (\<lambda>k. char_at l (int k)) npwp_order)"
proof -
  define c11 where "c11 = unflow (stepB (c\<lparr>stateB := 10\<rparr>) l)"
  have run: "loopB c (a # l # rest) = loopB c11 rest"
    using assms by (simp add: stepB_at c11_def)
  have "11 \<le> stateB c11" by (simp add: c11_def stepB_at)
  then have "c1 (retB (loopB c11 rest)) = c1 (retB c11)"
    using loopB_kept [of c11 rest] by simp
  moreover have "c1 (retB c11) = join_chars (map (\<lambda>k. char_at l (int k)) npwp_order)"
    by (simp add: c11_def stepB_at npwp_order_def)
  ultimately show ?thesis by (simp only: run)
qed

lemma npwp_nonempty:
  "(join_chars (map (\<lambda>k. char_at l (int k)) npwp_order) \<noteq> []) = (l \<noteq> [])"
proof (cases l)
  case Nil
  then show ?thesis by (simp add: npwp_order_def char_at_def)
next
  case (Cons x xs)
  have "Some x \<in> set (map (\<lambda>k. char_at l (int k)) npwp_order)"
    by (simp add: npwp_order_def char_at_def Cons)
  then show ?thesis using Cons join_chars_nonempty by blast
qed

lemma runB_state11:
  assumes "stateB c = 11"
  shows "c3 (retB (loopB c (''C.2Nama Wajib Pajak:'' # l # rest))) =
     join_chars [char_at l 1, char_at l 7, char_at l 2, char_at l 4, Some CHR ''-'',
       char_at l 0, char_at l 6, Some CHR ''-'', char_at l 5, char_at l 3]"
  using assms by (simp add: stepB_at)

lemma stepB_b7_head:
  assumes "take 1 (b7 (retB c)) = [x]"
  shows "take 1 (b7 (retB (unflow (stepB c l)))) = [x]"
proof -
  obtain ys where "b7 (retB c) = x # ys"
    using assms by (cases "b7 (retB c)") simp_all
  then show ?thesis
    using stateB_cases [of c] by (elim disjE) (simp_all add: stepB_at)
qed

lemma loopB_b7_head:
  "take 1 (b7 (retB c)) = [x] \<Longrightarrow> take 1 (b7 (retB (loopB c ls))) = [x]"
proof (induction ls arbitrary: c)
  case Nil
  then show ?case by simp
next
  case (Cons l ls)
  from stepB_b7_head [OF Cons.prems, of l] Cons.IH show ?case
    by (cases "stepB c l") simp_all
qed

lemma runB_state5_line:
  assumes "stateB c = 5" and "b7 (retB c) = []" and "l \<noteq> ''B.8''"
  shows "take 1 (b7 (retB (loopB c (''ddmmyyyy'' # l # rest)))) = [l]"
proof -
  define c7 where "c7 = c\<lparr>stateB := 7, retB := (retB c)\<lparr>b7 := [l]\<rparr>\<rparr>"
  have run: "loopB c (''ddmmyyyy'' # l # rest) = loopB c7 rest"
    using assms by (simp add: stepB_at c7_def)
  have "take 1 (b7 (retB c7)) = [l]" by (simp add: c7_def)
  then have "take 1 (b7 (retB (loopB c7 rest))) = [l]"
    by (rule loopB_b7_head)
  then show ?thesis unfolding run .
qed

lemma stepC_Break: "stepC c l = Inr (Break c') \<Longrightarrow> stateC c = 12 \<and> stateC c' = 12"
  by (auto simp: stepC_def Let_def split: if_splits list.splits prod.splits)

lemma loopC_append:
  "loopC c xs = Inr c' \<Longrightarrow> stateC c' \<noteq> 12 \<Longrightarrow> loopC c (xs @ ys) = loopC c' ys"
proof (induction xs arbitrary: c)
  case Nil
  then show ?case by simp
next
  case (Cons x xs)
  show ?case
  proof (cases "stepC c x")
    case (Inl e)
    with Cons.prems show ?thesis by simp
  next
    case (Inr f)
    show ?thesis
    proof (cases f)
      case (Continue d)
      with Inr Cons show ?thesis by simp
    next
      case (Break d)
      with Inr Cons.prems stepC_Break [of c x d] show ?thesis by simp
    qed
  qed
qed

lemma stepC_kept:
  "stepC c l = Inr f \<Longrightarrow>
   stateC c \<le> stateC (unflow f) \<and> (11 \<le> stateC c \<longrightarrow> c1 (retC (unflow f)) = c1 (retC c))"
  by (auto simp: stepC_def Let_def split: if_splits list.splits prod.splits)

lemma loopC_kept:
  "loopC c ls = Inr c' \<Longrightarrow>
   stateC c \<le> stateC c' \<and> (11 \<le> stateC c \<longrightarrow> c1 (retC c') = c1 (retC c))"
proof (induction ls arbitrary: c)
  case Nil
  then show ?case by simp
next
  case (Cons l ls)
  show ?case
  proof (cases "stepC c l")
    case (Inl e)
    with Cons.prems show ?thesis by simp
  next
    case (Inr f)
    show ?thesis
    proof (cases f)
      case (Continue d)
      with Inr Cons.prems have "loopC d ls = Inr c'" by simp
      from Cons.IH [OF this] stepC_kept [OF Inr] Continue show ?thesis by auto
    next
      case (Break d)
      with Inr Cons.prems stepC_kept [OF Inr] show ?thesis by auto
    qed
  qed
qed

lemma runC_state9:
  assumes "stateC c = 9" and "all_digits (remove_spaces l)" and "length (remove_spaces l) = 15"
    and "loopC c (l # rest) = Inr c'"
  shows "c1 (retC c') = remove_spaces l"
proof -
  define c11 where "c11 = c\<lparr>stateC := 11, retC := (retC c)\<lparr>c1 := remove_spaces l\<rparr>\<rparr>"
  have "stepC c l = Inr (Continue c11)"
    using assms(1,2,3) by (simp add: stepC_def Let_def c11_def)
  with assms(4) have "loopC c11 rest = Inr c'" by simp
  from loopC_kept [OF this] show ?thesis by (simp add: c11_def)
qed

lemma extractC_split:
  "linesC data = pre @ rest \<Longrightarrow> loopC initC pre = Inr c \<Longrightarrow> stateC c \<noteq> 12 \<Longrightarrow>
   extractCFormatedEbupot data = map_sum id retC (loopC c rest)"
  by (simp add: extractCFormatedEbupot_def linesC_def loopC_append)

text \<open>
  Claim C3, as stated, fails. On the text below Extractor A matches the anchor that ends
  state 8 and the anchor of state 11 (the run ends in state 13), yet \<open>c1\<close> and \<open>h1\<close>
  are empty in the returned record: the anchor of state 8 follows \<open>:NPWP\<close> directly,
  and the line after the anchor of state 11 is empty.
\<close>

theorem anchor_fields_nonempty_counterexample:
  "stateA (loopA initA (split_lines (substring_from
       ''Dokumen Referensi\<newline>cap\<newline>yyyy\<newline>\<newline>Tanggal\<newline>B.9\<newline>C.1\<newline>:NPWP\<newline>Nama Wajib PajakC.2:\<newline>mmyyyy\<newline>C.4\<newline>Bukti Pemotongan ini.\<newline>''
       (indexOf
       ''Dokumen Referensi\<newline>cap\<newline>yyyy\<newline>\<newline>Tanggal\<newline>B.9\<newline>C.1\<newline>:NPWP\<newline>Nama Wajib PajakC.2:\<newline>mmyyyy\<newline>C.4\<newline>Bukti Pemotongan ini.\<newline>''
       ''Dokumen Referensi'')))) = 13
   \<and> extractAFormatedEbupot
       ''Dokumen Referensi\<newline>cap\<newline>yyyy\<newline>\<newline>Tanggal\<newline>B.9\<newline>C.1\<newline>:NPWP\<newline>Nama Wajib PajakC.2:\<newline>mmyyyy\<newline>C.4\<newline>Bukti Pemotongan ini.\<newline>''
     = empty_data\<lparr>c3 := ''--''\<rparr>
   \<and> c1 (extractAFormatedEbupot
       ''Dokumen Referensi\<newline>cap\<newline>yyyy\<newline>\<newline>Tanggal\<newline>B.9\<newline>C.1\<newline>:NPWP\<newline>Nama Wajib PajakC.2:\<newline>mmyyyy\<newline>C.4\<newline>Bukti Pemotongan ini.\<newline>'')
     = []
   \<and> h1 (extractAFormatedEbupot
       ''Dokumen Referensi\<newline>cap\<newline>yyyy\<newline>\<newline>Tanggal\<newline>B.9\<newline>C.1\<newline>:NPWP\<newline>Nama Wajib PajakC.2:\<newline>mmyyyy\<newline>C.4\<newline>Bukti Pemotongan ini.\<newline>'')
     = []"
  by code_simp

text \<open>
  Claim C3, amended. Whenever an anchor state of an extractor is matched during the run,
  the field its action assigns (or, for an anchor that only opens the next line, the
  field that the state of the following line assigns) holds in the returned record the
  value that action computes. That value is non-empty in these cases: in Extractor A
  \<open>c3\<close> after the anchor of state 10 and \<open>b1\<close> after the anchor of state 13; in
  Extractor B, given a following line, \<open>b7\<close> after the anchor of state 5 (three empty
  strings when that line is \<open>B.8\<close>, else a list that starts with that line) and
  \<open>c3\<close> after the anchor of state 11. In the other cases it is non-empty exactly when
  the text read is: in A \<open>b7\<close> after the anchor of state 2 (the following line),
  \<open>b8\<close> after the anchor of state 5 and \<open>c1\<close> after the anchor of state 8 (the
  lines accumulated in that state, \<open>c1\<close> being their concatenation), \<open>h1\<close> after
  the anchor of state 11 (the following line, which \<open>h1\<close> equals); in B \<open>b1\<close> and
  \<open>b2\<close> after the anchor of state 3 and \<open>c1\<close> after the anchor of state 9 (the
  following line). Extractor C has no anchor state; when the 15-digit test of its
  state 9 succeeds, \<open>c1\<close> is the line without its white space and is non-empty.
\<close>

theorem matched_anchor_fields:
  "(linesA data = pre @ [''yyyy'', l] @ rest \<and> stateA (loopA initA pre) = 2
      \<longrightarrow> b7 (extractAFormatedEbupot data) =
          (if l = [] then []
           else b7 (retA (loopA initA pre))
                @ [slice l 0 (- 8), ddmmyyyyToIso (slice_from l (- 8))])
        \<and> (b7 (extractAFormatedEbupot data) \<noteq> [] \<longleftrightarrow> l \<noteq> []))
   \<and> (linesA data = pre @ [''Tanggal''] @ ls @ [''B.9''] @ rest \<and> stateA (loopA initA pre) = 4
        \<and> ''B.9'' \<notin> set ls
      \<longrightarrow> b8 (extractAFormatedEbupot data) =
          (if concat ls = [] then []
           else [slice (concat ls) 0 (- 8), ddmmyyyyToIso (slice_from (concat ls) (- 8))])
        \<and> (b8 (extractAFormatedEbupot data) \<noteq> [] \<longleftrightarrow> (\<exists>x\<in>set ls. x \<noteq> [])))
   \<and> (linesA data = pre @ ['':NPWP''] @ ls @ [''Nama Wajib PajakC.2:''] @ rest
        \<and> stateA (loopA initA pre) = 7 \<and> ''Nama Wajib PajakC.2:'' \<notin> set ls
      \<longrightarrow> c1 (extractAFormatedEbupot data) = concat ls
        \<and> (c1 (extractAFormatedEbupot data) \<noteq> [] \<longleftrightarrow> (\<exists>x\<in>set ls. x \<noteq> [])))
   \<and> (linesA data = pre @ [''mmyyyy''] @ ls @ [''C.4''] @ rest \<and> stateA (loopA initA pre) = 9
        \<and> ''C.4'' \<notin> set ls
      \<longrightarrow> c3 (extractAFormatedEbupot data) = ddmmyyyyToIso (concat ls)
        \<and> c3 (extractAFormatedEbupot data) \<noteq> [])
   \<and> (linesA data = pre @ [a, l] @ rest \<and> stateA (loopA initA pre) = 11
        \<and> sublist ''Bukti Pemotongan ini.'' a
      \<longrightarrow> h1 (extractAFormatedEbupot data) = l
        \<and> (h1 (extractAFormatedEbupot data) \<noteq> [] \<longleftrightarrow> l \<noteq> []))
   \<and> (linesA data = pre @ [a] @ rest \<and> stateA (loopA initA pre) = 13 \<and> 4 < length a
      \<longrightarrow> b1 (extractAFormatedEbupot data) = a \<and> b1 (extractAFormatedEbupot data) \<noteq> [])
   \<and> (linesB data = pre @ [''B.1B.2B.3B.4B.5B.6'', l] @ rest \<and> stateB (loopB initB pre) = 3
      \<longrightarrow> b1 (extractBFormatedEbupot data) =
          (if slice l (- 11) (- 10) = '','' then slice_from l (- 7) else slice_from l (- 6))
        \<and> b2 (extractBFormatedEbupot data) =
          substring l (indexOf l ''-'' - 2) (indexOf l ''-'' + 7)
        \<and> (b1 (extractBFormatedEbupot data) \<noteq> [] \<longleftrightarrow> l \<noteq> [])
        \<and> (b2 (extractBFormatedEbupot data) \<noteq> [] \<longleftrightarrow> l \<noteq> []))
   \<and> (linesB data = pre @ [''ddmmyyyy'', l] @ rest \<and> stateB (loopB initB pre) = 5
      \<longrightarrow> b7 (extractBFormatedEbupot data) \<noteq> []
        \<and> (l = ''B.8'' \<longrightarrow> b7 (extractBFormatedEbupot data) = ['''', '''', ''''])
        \<and> (l \<noteq> ''B.8'' \<longrightarrow> take 1 (b7 (extractBFormatedEbupot data)) = [l]))
   \<and> (linesB data = pre @ [a, l] @ rest \<and> stateB (loopB initB pre) = 9
        \<and> prefix ''C. IDENTITAS PEMOTONG'' a
      \<longrightarrow> c1 (extractBFormatedEbupot data) = join_chars (map (\<lambda>k. char_at l (int k)) npwp_order)
        \<and> (c1 (extractBFormatedEbupot data) \<noteq> [] \<longleftrightarrow> l \<noteq> []))
   \<and> (linesB data = pre @ [''C.2Nama Wajib Pajak:'', l] @ rest \<and> stateB (loopB initB pre) = 11
      \<longrightarrow> c3 (extractBFormatedEbupot data) =
          join_chars [char_at l 1, char_at l 7, char_at l 2, char_at l 4, Some CHR ''-'',
            char_at l 0, char_at l 6, Some CHR ''-'', char_at l 5, char_at l 3]
        \<and> c3 (extractBFormatedEbupot data) \<noteq> [])
   \<and> (linesC data = pre @ [l] @ rest \<and> loopC initC pre = Inr c \<and> stateC c = 9
        \<and> all_digits (remove_spaces l) \<and> length (remove_spaces l) = 15
      \<longrightarrow> map_sum id c1 (extractCFormatedEbupot data) = Inr (remove_spaces l)
        \<and> remove_spaces l \<noteq> [])"
proof (intro conjI impI)
  assume asm: "linesA data = pre @ [''yyyy'', l] @ rest \<and> stateA (loopA initA pre) = 2"
  define c where "c = loopA initA pre"
  have "invA c" unfolding c_def by (rule loopA_inv [OF invA_init])
  then have len: "length (b7 (retA c)) \<le> 1"
    using asm by (simp add: invA_def later_defaultA_def c_def)
  have "extractAFormatedEbupot data = retA (loopA c ([''yyyy'', l] @ rest))"
    unfolding c_def using asm by (intro extractA_split) simp_all
  then have v: "b7 (extractAFormatedEbupot data) =
     (if l = [] then [] else b7 (retA c) @ [slice l 0 (- 8), ddmmyyyyToIso (slice_from l (- 8))])"
    using runA_state2 [of c l rest] asm len by (simp add: c_def)
  then show "b7 (extractAFormatedEbupot data) =
     (if l = [] then []
      else b7 (retA (loopA initA pre)) @ [slice l 0 (- 8), ddmmyyyyToIso (slice_from l (- 8))])"
    by (simp add: c_def)
  from v show "(b7 (extractAFormatedEbupot data) \<noteq> []) = (l \<noteq> [])"
    by simp
next
  assume asm: "linesA data = pre @ [''Tanggal''] @ ls @ [''B.9''] @ rest
      \<and> stateA (loopA initA pre) = 4 \<and> ''B.9'' \<notin> set ls"
  define c where "c = loopA initA pre"
  have "invA c" unfolding c_def by (rule loopA_inv [OF invA_init])
  then have buf: "bufferA c = []" and b8: "b8 (retA c) = []"
    using asm by (simp_all add: invA_def later_defaultA_def c_def)
  have "extractAFormatedEbupot data = retA (loopA c ([''Tanggal''] @ ls @ [''B.9''] @ rest))"
    unfolding c_def using asm by (intro extractA_split) simp_all
  then have v: "b8 (extractAFormatedEbupot data) =
     (if concat ls = [] then []
      else [slice (concat ls) 0 (- 8), ddmmyyyyToIso (slice_from (concat ls) (- 8))])"
    using runA_state5 [of c ls rest] asm buf b8 by (simp add: c_def)
  then show "b8 (extractAFormatedEbupot data) =
     (if concat ls = [] then []
      else [slice (concat ls) 0 (- 8), ddmmyyyyToIso (slice_from (concat ls) (- 8))])" .
  from v show "(b8 (extractAFormatedEbupot data) \<noteq> []) = (\<exists>x\<in>set ls. x \<noteq> [])"
    by auto
next
  assume asm: "linesA data = pre @ ['':NPWP''] @ ls @ [''Nama Wajib PajakC.2:''] @ rest
      \<and> stateA (loopA initA pre) = 7 \<and> ''Nama Wajib PajakC.2:'' \<notin> set ls"
  define c where "c = loopA initA pre"
  have "invA c" unfolding c_def by (rule loopA_inv [OF invA_init])
  then have buf: "bufferA c = []"
    using asm by (simp add: invA_def c_def)
  have "extractAFormatedEbupot data
      = retA (loopA c (['':NPWP''] @ ls @ [''Nama Wajib PajakC.2:''] @ rest))"
    unfolding c_def using asm by (intro extractA_split) simp_all
  then have "c1 (extractAFormatedEbupot data) = concat ls"
    using runA_state8 [of c ls rest] asm buf by (simp add: c_def)
  then show "c1 (extractAFormatedEbupot data) = concat ls"
    and "(c1 (extractAFormatedEbupot data) \<noteq> []) = (\<exists>x\<in>set ls. x \<noteq> [])"
    by auto
next
  assume asm: "linesA data = pre @ [''mmyyyy''] @ ls @ [''C.4''] @ rest
      \<and> stateA (loopA initA pre) = 9 \<and> ''C.4'' \<notin> set ls"
  define c where "c = loopA initA pre"
  have "invA c" unfolding c_def by (rule loopA_inv [OF invA_init])
  then have buf: "bufferA c = []"
    using asm by (simp add: invA_def c_def)
  have "extractAFormatedEbupot data = retA (loopA c ([''mmyyyy''] @ ls @ [''C.4''] @ rest))"
    unfolding c_def using asm by (intro extractA_split) simp_all
  then have "c3 (extractAFormatedEbupot data) = ddmmyyyyToIso (concat ls)"
    using runA_state10 [of c ls rest] asm buf by (simp add: c_def)
  then show "c3 (extractAFormatedEbupot data) = ddmmyyyyToIso (concat ls)"
    and "c3 (extractAFormatedEbupot data) \<noteq> []"
    by (simp_all add: ddmmyyyyToIso_nonempty)
next
  assume asm: "linesA data = pre @ [a, l] @ rest \<and> stateA (loopA initA pre) = 11
      \<and> sublist ''Bukti Pemotongan ini.'' a"
  define c where "c = loopA initA pre"
  have "extractAFormatedEbupot data = retA (loopA c ([a, l] @ rest))"
    unfolding c_def using asm by (intro extractA_split) simp_all
  then have "h1 (extractAFormatedEbupot data) = l"
    using runA_state11 [of c a l rest] asm by (simp add: c_def)
  then show "h1 (extractAFormatedEbupot data) = l"
    and "(h1 (extractAFormatedEbupot data) \<noteq> []) = (l \<noteq> [])"
    by simp_all
next
  assume asm: "linesA data = pre @ [a] @ rest \<and> stateA (loopA initA pre) = 13 \<and> 4 < length a"
  define c where "c = loopA initA pre"
  have "extractAFormatedEbupot data = retA (loopA c ([a] @ rest))"
    unfolding c_def using asm by (intro extractA_split) simp_all
  then have "b1 (extractAFormatedEbupot data) = a"
    using runA_state13 [of c a rest] asm by (simp add: c_def)
  then show "b1 (extractAFormatedEbupot data) = a" and "b1 (extractAFormatedEbupot data) \<noteq> []"
    using asm by auto
next
  assume asm: "linesB data = pre @ [''B.1B.2B.3B.4B.5B.6'', l] @ rest
      \<and> stateB (loopB initB pre) = 3"
  define c where "c = loopB initB pre"
  have e: "extractBFormatedEbupot data = retB (loopB c ([''B.1B.2B.3B.4B.5B.6'', l] @ rest))"
    unfolding c_def using asm by (intro extractB_split) simp_all
  have v1: "b1 (extractBFormatedEbupot data) =
       (if slice l (- 11) (- 10) = '','' then slice_from l (- 7) else slice_from l (- 6))"
    and v2: "b2 (extractBFormatedEbupot data) =
       substring l (indexOf l ''-'' - 2) (indexOf l ''-'' + 7)"
    using runB_state3 [of c l rest] asm e by (simp_all add: c_def)
  show "b1 (extractBFormatedEbupot data) =
       (if slice l (- 11) (- 10) = '','' then slice_from l (- 7) else slice_from l (- 6))"
    by (rule v1)
  show "b2 (extractBFormatedEbupot data) =
       substring l (indexOf l ''-'' - 2) (indexOf l ''-'' + 7)"
    by (rule v2)
  show "(b1 (extractBFormatedEbupot data) \<noteq> []) = (l \<noteq> [])"
    unfolding v1 using slice_from_nonempty [of "- 7" l] slice_from_nonempty [of "- 6" l]
    by auto
  show "(b2 (extractBFormatedEbupot data) \<noteq> []) = (l \<noteq> [])"
    unfolding v2 by (rule substring_around_dash)
next
  assume asm: "linesB data = pre @ [''ddmmyyyy'', l] @ rest \<and> stateB (loopB initB pre) = 5"
  define c where "c = loopB initB pre"
  have "invB c" unfolding c_def by (rule loopB_inv [OF invB_init])
  then have b7: "b7 (retB c) = []"
    using asm by (simp add: invB_def later_defaultB_def c_def)
  have e: "extractBFormatedEbupot data = retB (loopB c ([''ddmmyyyy'', l] @ rest))"
    unfolding c_def using asm by (intro extractB_split) simp_all
  show "b7 (extractBFormatedEbupot data) \<noteq> []"
    using runB_state5 [of c l rest] asm e by (simp add: c_def)
  show "b7 (extractBFormatedEbupot data) = ['''', '''', '''']" if "l = ''B.8''"
    using runB_state5_B8 [of c rest] asm e b7 that by (simp add: c_def)
  show "take 1 (b7 (extractBFormatedEbupot data)) = [l]" if "l \<noteq> ''B.8''"
    using runB_state5_line [of c l rest] asm e b7 that by (simp add: c_def)
next
  assume asm: "linesB data = pre @ [a, l] @ rest \<and> stateB (loopB initB pre) = 9
      \<and> prefix ''C. IDENTITAS PEMOTONG'' a"
  define c where "c = loopB initB pre"
  have e: "extractBFormatedEbupot data = retB (loopB c ([a, l] @ rest))"
    unfolding c_def using asm by (intro extractB_split) simp_all
  then have v: "c1 (extractBFormatedEbupot data)
      = join_chars (map (\<lambda>k. char_at l (int k)) npwp_order)"
    using runB_state9 [of c a l rest] asm by (simp add: c_def)
  then show "c1 (extractBFormatedEbupot data)
      = join_chars (map (\<lambda>k. char_at l (int k)) npwp_order)" .
  show "(c1 (extractBFormatedEbupot data) \<noteq> []) = (l \<noteq> [])"
    unfolding v by (rule npwp_nonempty)
next
  assume asm: "linesB data = pre @ [''C.2Nama Wajib Pajak:'', l] @ rest
      \<and> stateB (loopB initB pre) = 11"
  define c where "c = loopB initB pre"
  have e: "extractBFormatedEbupot data = retB (loopB c ([''C.2Nama Wajib Pajak:'', l] @ rest))"
    unfolding c_def using asm by (intro extractB_split) simp_all
  have v: "c3 (extractBFormatedEbupot data) =
     join_chars [char_at l 1, char_at l 7, char_at l 2, char_at l 4, Some CHR ''-'',
       char_at l 0, char_at l 6, Some CHR ''-'', char_at l 5, char_at l 3]"
    using runB_state11 [of c l rest] asm e by (simp add: c_def)
  then show "c3 (extractBFormatedEbupot data) =
     join_chars [char_at l 1, char_at l 7, char_at l 2, char_at l 4, Some CHR ''-'',
       char_at l 0, char_at l 6, Some CHR ''-'', char_at l 5, char_at l 3]" .
  note v
  moreover have "join_chars [char_at l 1, char_at l 7, char_at l 2, char_at l 4, Some CHR ''-'',
       char_at l 0, char_at l 6, Some CHR ''-'', char_at l 5, char_at l 3] \<noteq> []"
    by (rule join_chars_nonempty [of "CHR ''-''"]) simp
  ultimately show "c3 (extractBFormatedEbupot data) \<noteq> []"
    by simp
next
  assume asm: "linesC data = pre @ [l] @ rest \<and> loopC initC pre = Inr c \<and> stateC c = 9
      \<and> all_digits (remove_spaces l) \<and> length (remove_spaces l) = 15"
  have e: "extractCFormatedEbupot data = map_sum id retC (loopC c ([l] @ rest))"
    using asm extractC_split [of data pre "[l] @ rest" c] by simp
  obtain r where "extractCFormatedEbupot data = Inr r"
    using extractC_total by blast
  with e obtain c' where c': "loopC c (l # rest) = Inr c'"
    by (cases "loopC c (l # rest)") auto
  have "c1 (retC c') = remove_spaces l"
    using asm c' by (intro runC_state9 [of c l rest c']) simp_all
  then show "map_sum id c1 (extractCFormatedEbupot data) = Inr (remove_spaces l)"
    using e c' by simp
  show "remove_spaces l \<noteq> []"
    using asm by auto
qed

theorem matched_anchor_fields_witness:
  "b7 (extractAFormatedEbupot
     ''Dokumen Referensi\<newline>cap\<newline>yyyy\<newline>INV 05082023\<newline>Tanggal\<newline>PO 01012024\<newline>B.9\<newline>C.1\<newline>:NPWP\<newline>12345\<newline>67890\<newline>Nama Wajib PajakC.2:\<newline>mmyyyy\<newline>0101\<newline>2024\<newline>C.4\<newline>xx Bukti Pemotongan ini.\<newline>CERT-99\<newline>12345\<newline>AMT-2'') \<noteq> []
   \<and> b8 (extractAFormatedEbupot
     ''Dokumen Referensi\<newline>cap\<newline>yyyy\<newline>INV 05082023\<newline>Tanggal\<newline>PO 01012024\<newline>B.9\<newline>C.1\<newline>:NPWP\<newline>12345\<newline>67890\<newline>Nama Wajib PajakC.2:\<newline>mmyyyy\<newline>0101\<newline>2024\<newline>C.4\<newline>xx Bukti Pemotongan ini.\<newline>CERT-99\<newline>12345\<newline>AMT-2'') \<noteq> []
   \<and> c1 (extractAFormatedEbupot
     ''Dokumen Referensi\<newline>cap\<newline>yyyy\<newline>INV 05082023\<newline>Tanggal\<newline>PO 01012024\<newline>B.9\<newline>C.1\<newline>:NPWP\<newline>12345\<newline>67890\<newline>Nama Wajib PajakC.2:\<newline>mmyyyy\<newline>0101\<newline>2024\<newline>C.4\<newline>xx Bukti Pemotongan ini.\<newline>CERT-99\<newline>12345\<newline>AMT-2'') = ''1234567890''
   \<and> c3 (extractAFormatedEbupot
     ''Dokumen Referensi\<newline>cap\<newline>yyyy\<newline>INV 05082023\<newline>Tanggal\<newline>PO 01012024\<newline>B.9\<newline>C.1\<newline>:NPWP\<newline>12345\<newline>67890\<newline>Nama Wajib PajakC.2:\<newline>mmyyyy\<newline>0101\<newline>2024\<newline>C.4\<newline>xx Bukti Pemotongan ini.\<newline>CERT-99\<newline>12345\<newline>AMT-2'') = ''2024-01-01''
   \<and> h1 (extractAFormatedEbupot
     ''Dokumen Referensi\<newline>cap\<newline>yyyy\<newline>INV 05082023\<newline>Tanggal\<newline>PO 01012024\<newline>B.9\<newline>C.1\<newline>:NPWP\<newline>12345\<newline>67890\<newline>Nama Wajib PajakC.2:\<newline>mmyyyy\<newline>0101\<newline>2024\<newline>C.4\<newline>xx Bukti Pemotongan ini.\<newline>CERT-99\<newline>12345\<newline>AMT-2'') = ''CERT-99''
   \<and> b1 (extractAFormatedEbupot
     ''Dokumen Referensi\<newline>cap\<newline>yyyy\<newline>INV 05082023\<newline>Tanggal\<newline>PO 01012024\<newline>B.9\<newline>C.1\<newline>:NPWP\<newline>12345\<newline>67890\<newline>Nama Wajib PajakC.2:\<newline>mmyyyy\<newline>0101\<newline>2024\<newline>C.4\<newline>xx Bukti Pemotongan ini.\<newline>CERT-99\<newline>12345\<newline>AMT-2'') = ''12345''
   \<and> b1 (extractBFormatedEbupot
     ''PPh Tidak Final\<newline>x\<newline>H1\<newline>B.1B.2B.3B.4B.5B.6\<newline>24-100-01 1,234,567\<newline>ddmmyyyy\<newline>B.8\<newline>skip\<newline>C. IDENTITAS PEMOTONG\<newline>abcdefghijklmno\<newline>C.2Nama Wajib Pajak:\<newline>12345678'') \<noteq> []
   \<and> b2 (extractBFormatedEbupot
     ''PPh Tidak Final\<newline>x\<newline>H1\<newline>B.1B.2B.3B.4B.5B.6\<newline>24-100-01 1,234,567\<newline>ddmmyyyy\<newline>B.8\<newline>skip\<newline>C. IDENTITAS PEMOTONG\<newline>abcdefghijklmno\<newline>C.2Nama Wajib Pajak:\<newline>12345678'') \<noteq> []
   \<and> b7 (extractBFormatedEbupot
     ''PPh Tidak Final\<newline>x\<newline>H1\<newline>B.1B.2B.3B.4B.5B.6\<newline>24-100-01 1,234,567\<newline>ddmmyyyy\<newline>B.8\<newline>skip\<newline>C. IDENTITAS PEMOTONG\<newline>abcdefghijklmno\<newline>C.2Nama Wajib Pajak:\<newline>12345678'') = ['''', '''', '''']
   \<and> c1 (extractBFormatedEbupot
     ''PPh Tidak Final\<newline>x\<newline>H1\<newline>B.1B.2B.3B.4B.5B.6\<newline>24-100-01 1,234,567\<newline>ddmmyyyy\<newline>B.8\<newline>skip\<newline>C. IDENTITAS PEMOTONG\<newline>abcdefghijklmno\<newline>C.2Nama Wajib Pajak:\<newline>12345678'') = ''hlojdfmnbgckaie''
   \<and> c3 (extractBFormatedEbupot
     ''PPh Tidak Final\<newline>x\<newline>H1\<newline>B.1B.2B.3B.4B.5B.6\<newline>24-100-01 1,234,567\<newline>ddmmyyyy\<newline>B.8\<newline>skip\<newline>C. IDENTITAS PEMOTONG\<newline>abcdefghijklmno\<newline>C.2Nama Wajib Pajak:\<newline>12345678'') \<noteq> []
   \<and> map_sum id c1 (extractCFormatedEbupot
     ''Bukti Pemotongan ini.\<newline>H 1\<newline>a\<newline>b\<newline>c\<newline>d\<newline>12-3456789\<newline>skip\<newline>DOC 05082023\<newline>12 345 678 901 234 5\<newline>05 08 2023'')
     = Inr ''123456789012345''"
proof -
  let ?A = "''Dokumen Referensi\<newline>cap\<newline>yyyy\<newline>INV 05082023\<newline>Tanggal\<newline>PO 01012024\<newline>B.9\<newline>C.1\<newline>:NPWP\<newline>12345\<newline>67890\<newline>Nama Wajib PajakC.2:\<newline>mmyyyy\<newline>0101\<newline>2024\<newline>C.4\<newline>xx Bukti Pemotongan ini.\<newline>CERT-99\<newline>12345\<newline>AMT-2''"
  let ?B = "''PPh Tidak Final\<newline>x\<newline>H1\<newline>B.1B.2B.3B.4B.5B.6\<newline>24-100-01 1,234,567\<newline>ddmmyyyy\<newline>B.8\<newline>skip\<newline>C. IDENTITAS PEMOTONG\<newline>abcdefghijklmno\<newline>C.2Nama Wajib Pajak:\<newline>12345678''"
  let ?C = "''Bukti Pemotongan ini.\<newline>H 1\<newline>a\<newline>b\<newline>c\<newline>d\<newline>12-3456789\<newline>skip\<newline>DOC 05082023\<newline>12 345 678 901 234 5\<newline>05 08 2023''"
  let ?p2 = "[''Dokumen Referensi'', ''cap'']"
  let ?p4 = "?p2 @ [''yyyy'', ''INV 05082023'']"
  let ?p7 = "?p4 @ [''Tanggal'', ''PO 01012024'', ''B.9'', ''C.1'']"
  let ?p9 = "?p7 @ ['':NPWP'', ''12345'', ''67890'', ''Nama Wajib PajakC.2:'']"
  let ?p11 = "?p9 @ [''mmyyyy'', ''0101'', ''2024'', ''C.4'']"
  let ?p13 = "?p11 @ [''xx Bukti Pemotongan ini.'', ''CERT-99'']"
  let ?q3 = "[''PPh Tidak Final'', ''x'', ''H1'']"
  let ?q5 = "?q3 @ [''B.1B.2B.3B.4B.5B.6'', ''24-100-01 1,234,567'']"
  let ?q9 = "?q5 @ [''ddmmyyyy'', ''B.8'', ''skip'']"
  let ?q11 = "?q9 @ [''C. IDENTITAS PEMOTONG'', ''abcdefghijklmno'']"
  let ?r9 = "[''Bukti Pemotongan ini.'', ''H 1'', ''a'', ''b'', ''c'', ''d'', ''12-3456789'', ''skip'',
      ''DOC 05082023'']"
  have h2: "linesA ?A = ?p2 @ [''yyyy'', ''INV 05082023''] @ (drop 4 (linesA ?A))
      \<and> stateA (loopA initA ?p2) = 2"
    by code_simp
  have h5: "linesA ?A = ?p4 @ [''Tanggal''] @ [''PO 01012024''] @ [''B.9''] @ (drop 7 (linesA ?A))
      \<and> stateA (loopA initA ?p4) = 4 \<and> ''B.9'' \<notin> set [''PO 01012024'']"
    by code_simp
  have h8: "linesA ?A = ?p7 @ ['':NPWP''] @ [''12345'', ''67890''] @ [''Nama Wajib PajakC.2:'']
        @ (drop 12 (linesA ?A))
      \<and> stateA (loopA initA ?p7) = 7 \<and> ''Nama Wajib PajakC.2:'' \<notin> set [''12345'', ''67890'']"
    by code_simp
  have h10: "linesA ?A = ?p9 @ [''mmyyyy''] @ [''0101'', ''2024''] @ [''C.4''] @ (drop 16 (linesA ?A))
      \<and> stateA (loopA initA ?p9) = 9 \<and> ''C.4'' \<notin> set [''0101'', ''2024'']"
    by code_simp
  have h11: "linesA ?A = ?p11 @ [''xx Bukti Pemotongan ini.'', ''CERT-99''] @ (drop 18 (linesA ?A))
      \<and> stateA (loopA initA ?p11) = 11
      \<and> sublist ''Bukti Pemotongan ini.'' ''xx Bukti Pemotongan ini.''"
    by code_simp
  have h13: "linesA ?A = ?p13 @ [''12345''] @ (drop 19 (linesA ?A))
      \<and> stateA (loopA initA ?p13) = 13 \<and> 4 < length ''12345''"
    by code_simp
  have g3: "linesB ?B = ?q3 @ [''B.1B.2B.3B.4B.5B.6'', ''24-100-01 1,234,567''] @ (drop 5 (linesB ?B))
      \<and> stateB (loopB initB ?q3) = 3"
    by code_simp
  have g5: "linesB ?B = ?q5 @ [''ddmmyyyy'', ''B.8''] @ (drop 7 (linesB ?B))
      \<and> stateB (loopB initB ?q5) = 5"
    by code_simp
  have g9: "linesB ?B = ?q9 @ [''C. IDENTITAS PEMOTONG'', ''abcdefghijklmno''] @ (drop 10 (linesB ?B))
      \<and> stateB (loopB initB ?q9) = 9
      \<and> prefix ''C. IDENTITAS PEMOTONG'' ''C. IDENTITAS PEMOTONG''"
    by code_simp
  have g11: "linesB ?B = ?q11 @ [''C.2Nama Wajib Pajak:'', ''12345678''] @ (drop 12 (linesB ?B))
      \<and> stateB (loopB initB ?q11) = 11"
    by code_simp
  have k9: "linesC ?C = ?r9 @ [''12 345 678 901 234 5''] @ (drop 10 (linesC ?C))
      \<and> loopC initC ?r9 = Inr (initC\<lparr>stateC := 9, bufferLines := [''DOC 05082023''],
            retC := empty_data\<lparr>h1 := ''H1'', b1 := ''12-3456'', b2 := ''789''\<rparr>\<rparr>)
      \<and> stateC (initC\<lparr>stateC := 9, bufferLines := [''DOC 05082023''],
            retC := empty_data\<lparr>h1 := ''H1'', b1 := ''12-3456'', b2 := ''789''\<rparr>\<rparr>) = 9
      \<and> all_digits (remove_spaces ''12 345 678 901 234 5'')
      \<and> length (remove_spaces ''12 345 678 901 234 5'') = 15"
    by code_simp
  note a2 = matched_anchor_fields [where data = ?A and pre = ?p2 and l = "''INV 05082023''"
      and rest = "drop 4 (linesA ?A)", THEN conjunct1, THEN mp, OF h2]
  note a5 = matched_anchor_fields [where data = ?A and pre = ?p4 and ls = "[''PO 01012024'']"
      and rest = "drop 7 (linesA ?A)", THEN conjunct2, THEN conjunct1, THEN mp, OF h5]
  note a8 = matched_anchor_fields [where data = ?A and pre = ?p7 and ls = "[''12345'', ''67890'']"
      and rest = "drop 12 (linesA ?A)", THEN conjunct2, THEN conjunct2, THEN conjunct1, THEN mp,
      OF h8]
  note a10 = matched_anchor_fields [where data = ?A and pre = ?p9 and ls = "[''0101'', ''2024'']"
      and rest = "drop 16 (linesA ?A)", THEN conjunct2, THEN conjunct2, THEN conjunct2,
      THEN conjunct1, THEN mp, OF h10]
  note a11 = matched_anchor_fields [where data = ?A and pre = ?p11
      and a = "''xx Bukti Pemotongan ini.''" and l = "''CERT-99''"
      and rest = "drop 18 (linesA ?A)", THEN conjunct2, THEN conjunct2, THEN conjunct2,
      THEN conjunct2, THEN conjunct1, THEN mp, OF h11]
  note a13 = matched_anchor_fields [where data = ?A and pre = ?p13 and a = "''12345''"
      and rest = "drop 19 (linesA ?A)", THEN conjunct2, THEN conjunct2, THEN conjunct2,
      THEN conjunct2, THEN conjunct2, THEN conjunct1, THEN mp, OF h13]
  note b3 = matched_anchor_fields [where data = ?B and pre = ?q3 and l = "''24-100-01 1,234,567''"
      and rest = "drop 5 (linesB ?B)", THEN conjunct2, THEN conjunct2, THEN conjunct2,
      THEN conjunct2, THEN conjunct2, THEN conjunct2, THEN conjunct1, THEN mp, OF g3]
  note b5 = matched_anchor_fields [where data = ?B and pre = ?q5 and l = "''B.8''"
      and rest = "drop 7 (linesB ?B)", THEN conjunct2, THEN conjunct2, THEN conjunct2,
      THEN conjunct2, THEN conjunct2, THEN conjunct2, THEN conjunct2, THEN conjunct1, THEN mp,
      OF g5]
  note b9 = matched_anchor_fields [where data = ?B and pre = ?q9
      and a = "''C. IDENTITAS PEMOTONG''" and l = "''abcdefghijklmno''"
      and rest = "drop 10 (linesB ?B)", THEN conjunct2, THEN conjunct2, THEN conjunct2,
      THEN conjunct2, THEN conjunct2, THEN conjunct2, THEN conjunct2, THEN conjunct2,
      THEN conjunct1, THEN mp, OF g9]
  note b11 = matched_anchor_fields [where data = ?B and pre = ?q11 and l = "''12345678''"
      and rest = "drop 12 (linesB ?B)", THEN conjunct2, THEN conjunct2, THEN conjunct2,
      THEN conjunct2, THEN conjunct2, THEN conjunct2, THEN conjunct2, THEN conjunct2,
      THEN conjunct2, THEN conjunct1, THEN mp, OF g11]
  note c9 = matched_anchor_fields [where data = ?C and pre = ?r9
      and l = "''12 345 678 901 234 5''" and rest = "drop 10 (linesC ?C)"
      and c = "initC\<lparr>stateC := 9, bufferLines := [''DOC 05082023''],
            retC := empty_data\<lparr>h1 := ''H1'', b1 := ''12-3456'', b2 := ''789''\<rparr>\<rparr>",
      THEN conjunct2, THEN conjunct2, THEN conjunct2,
      THEN conjunct2, THEN conjunct2, THEN conjunct2, THEN conjunct2, THEN conjunct2,
      THEN conjunct2, THEN conjunct2, THEN mp, OF k9]
  have v10: "ddmmyyyyToIso (concat [''0101'', ''2024'']) = ''2024-01-01''"
    by code_simp
  have v9: "join_chars (map (\<lambda>k. char_at ''abcdefghijklmno'' (int k)) npwp_order)
      = ''hlojdfmnbgckaie''"
    by code_simp
  have vc: "remove_spaces ''12 345 678 901 234 5'' = ''123456789012345''"
    by code_simp
  have w2: "b7 (extractAFormatedEbupot ?A) \<noteq> []" using a2 [THEN conjunct2] by simp
  have w5: "b8 (extractAFormatedEbupot ?A) \<noteq> []" using a5 [THEN conjunct2] by simp
  have w8: "c1 (extractAFormatedEbupot ?A) = ''1234567890''" using a8 by simp
  have w10: "c3 (extractAFormatedEbupot ?A) = ''2024-01-01''"
    using a10 [THEN conjunct1] by (simp only: v10)
  have w11: "h1 (extractAFormatedEbupot ?A) = ''CERT-99''" using a11 by simp
  have w13: "b1 (extractAFormatedEbupot ?A) = ''12345''" using a13 by simp
  have x3: "b1 (extractBFormatedEbupot ?B) \<noteq> []" "b2 (extractBFormatedEbupot ?B) \<noteq> []"
    using b3 [THEN conjunct2, THEN conjunct2] by simp_all
  have x5: "b7 (extractBFormatedEbupot ?B) = ['''', '''', '''']"
    using b5 [THEN conjunct2, THEN conjunct1] by simp
  have x9: "c1 (extractBFormatedEbupot ?B) = ''hlojdfmnbgckaie''"
    using b9 [THEN conjunct1] by (simp only: v9)
  have x11: "c3 (extractBFormatedEbupot ?B) \<noteq> []" by (rule b11 [THEN conjunct2])
  have y9: "map_sum id c1 (extractCFormatedEbupot ?C) = Inr ''123456789012345''"
    using c9 [THEN conjunct1] by (simp only: vc)
  show ?thesis by (intro conjI w2 w5 w8 w10 w11 w13 x3 x5 x9 x11 y9)
qed

lemma later_defaultA_mono: "later_defaultA j r \<Longrightarrow> j \<le> k \<Longrightarrow> later_defaultA k r"
  by (auto simp: later_defaultA_def)

lemma later_defaultB_mono: "later_defaultB j r \<Longrightarrow> j \<le> k \<Longrightarrow> later_defaultB k r"
  by (auto simp: later_defaultB_def)

lemma stepA_succ: "stateA (unflow (stepA c l)) \<le> stateA c + 1"
  using stateA_cases [of c] by (elim disjE) (simp_all add: stepA_at)

lemma stepA_bounded:
  assumes "k \<in> anchor_statesA" and "stateA c \<le> k" and "\<not> anchorA k l"
  shows "stateA (unflow (stepA c l)) \<le> k"
proof (cases "stateA c = k")
  case True
  from stepA_stuck [OF True assms(1,3)] show ?thesis by auto
next
  case False
  with assms(2) stepA_succ [of c l] show ?thesis by simp
qed

lemma loopA_bounded:
  "k \<in> anchor_statesA \<Longrightarrow> stateA c \<le> k \<Longrightarrow> \<forall>l\<in>set ls. \<not> anchorA k l \<Longrightarrow>
   stateA (loopA c ls) \<le> k"
proof (induction ls arbitrary: c)
  case Nil
  then show ?case by simp
next
  case (Cons l ls)
  have "stateA (unflow (stepA c l)) \<le> k"
    using Cons.prems by (intro stepA_bounded) simp_all
  with Cons show ?case by (cases "stepA c l") simp_all
qed

lemma stepB_bounded:
  assumes "k \<in> anchor_statesB" and "stateB c \<le> k" and "\<not> anchorB k l"
  shows "stateB (unflow (stepB c l)) \<le> k"
proof (cases "stateB c = k")
  case True
  from stepB_stuck [OF True assms(1,3)] show ?thesis by auto
next
  case False
  with assms(1,2) show ?thesis
    using stateB_cases [of c]
    by (elim disjE) (auto simp: stepB_at anchor_statesB_def)
qed

lemma loopB_bounded:
  "k \<in> anchor_statesB \<Longrightarrow> stateB c \<le> k \<Longrightarrow> \<forall>l\<in>set ls. \<not> anchorB k l \<Longrightarrow>
   stateB (loopB c ls) \<le> k"
proof (induction ls arbitrary: c)
  case Nil
  then show ?case by simp
next
  case (Cons l ls)
  have "stateB (unflow (stepB c l)) \<le> k"
    using Cons.prems by (intro stepB_bounded) simp_all
  with Cons show ?case by (cases "stepB c l") simp_all
qed

text \<open>
  Claim C5, as stated, fails in two ways. With \<open>yyyy\<close> missing, \<open>b7\<close> holds the line
  that state 1 captured, although state 3, a later state, assigns \<open>b7\<close> too: that
  field does not retain its default. With \<open>mmyyyy\<close> missing, the run below went
  through states 1, 3, 5 and 8, which assign \<open>b7\<close>, \<open>b8\<close> and \<open>c1\<close>, and stops in
  state 9 with every field empty: the fields of the states reached are not populated.
\<close>

theorem missing_anchor_fields_counterexample:
  "''yyyy'' \<notin> set (split_lines (substring_from
       ''x\<newline>Dokumen Referensi\<newline>cap\<newline>foo\<newline>C.1''
       (indexOf ''x\<newline>Dokumen Referensi\<newline>cap\<newline>foo\<newline>C.1'' ''Dokumen Referensi'')))
   \<and> extractAFormatedEbupot ''x\<newline>Dokumen Referensi\<newline>cap\<newline>foo\<newline>C.1''
       = empty_data\<lparr>b7 := [''cap'']\<rparr>
   \<and> b7 (retA (unflow (stepA (initA\<lparr>stateA := 3, retA := empty_data\<lparr>b7 := [''cap'']\<rparr>\<rparr>)
         ''DOC 05082023''))) = [''cap'', ''DOC '', ''2023-08-05'']
   \<and> ''mmyyyy'' \<notin> set (split_lines (substring_from
       ''Dokumen Referensi\<newline>cap\<newline>yyyy\<newline>\<newline>Tanggal\<newline>B.9\<newline>C.1\<newline>:NPWP\<newline>Nama Wajib PajakC.2:\<newline>foo''
       (indexOf
       ''Dokumen Referensi\<newline>cap\<newline>yyyy\<newline>\<newline>Tanggal\<newline>B.9\<newline>C.1\<newline>:NPWP\<newline>Nama Wajib PajakC.2:\<newline>foo''
       ''Dokumen Referensi'')))
   \<and> stateA (loopA initA (split_lines (substring_from
       ''Dokumen Referensi\<newline>cap\<newline>yyyy\<newline>\<newline>Tanggal\<newline>B.9\<newline>C.1\<newline>:NPWP\<newline>Nama Wajib PajakC.2:\<newline>foo''
       (indexOf
       ''Dokumen Referensi\<newline>cap\<newline>yyyy\<newline>\<newline>Tanggal\<newline>B.9\<newline>C.1\<newline>:NPWP\<newline>Nama Wajib PajakC.2:\<newline>foo''
       ''Dokumen Referensi'')))) = 9
   \<and> extractAFormatedEbupot
       ''Dokumen Referensi\<newline>cap\<newline>yyyy\<newline>\<newline>Tanggal\<newline>B.9\<newline>C.1\<newline>:NPWP\<newline>Nama Wajib PajakC.2:\<newline>foo''
       = empty_data"
  by code_simp

text \<open>
  Claim C5, amended. When no line of the text after the entry point matches the anchor
  of an anchor state \<open>k\<close> of Extractor A or B, the run ends without error, in state \<open>k\<close>
  or before it, and every field that only states after \<open>k\<close> assign is still empty;
  \<open>b7\<close> of Extractor A, which states 1 and 3 both assign, holds at most the line that
  state 1 captured when \<open>yyyy\<close> is missing. When the machine waits in \<open>k\<close> and no
  remaining line matches, the returned record is exactly the record as the states
  before had built it, where a value they assigned may itself be empty. A line matches
  the anchor of \<open>k\<close> exactly when the loop body leaves state \<open>k\<close> on it. Extractor C
  has no anchor state; it returns a record on every text.
\<close>

theorem missing_anchor_halts_in_place:
  "(\<forall>k. k \<in> anchor_statesA
      \<and> (\<forall>l\<in>set (split_lines (substring_from data (indexOf data ''Dokumen Referensi''))).
            \<not> anchorA k l)
      \<longrightarrow> stateA (loopA initA
              (split_lines (substring_from data (indexOf data ''Dokumen Referensi'')))) \<le> k
        \<and> later_defaultA k (extractAFormatedEbupot data))
   \<and> (\<forall>k. k \<in> anchor_statesB
      \<and> (\<forall>l\<in>set (split_lines (substring_from data (indexOf data ''PPh Tidak Final''))).
            \<not> anchorB k l)
      \<longrightarrow> stateB (loopB initB
              (split_lines (substring_from data (indexOf data ''PPh Tidak Final'')))) \<le> k
        \<and> later_defaultB k (extractBFormatedEbupot data))
   \<and> (\<forall>pre rest k.
      split_lines (substring_from data (indexOf data ''Dokumen Referensi'')) = pre @ rest
      \<and> stateA (loopA initA pre) = k \<and> k \<in> anchor_statesA \<and> (\<forall>l\<in>set rest. \<not> anchorA k l)
      \<longrightarrow> extractAFormatedEbupot data = retA (loopA initA pre)
        \<and> later_defaultA k (extractAFormatedEbupot data))
   \<and> (\<forall>pre rest k.
      split_lines (substring_from data (indexOf data ''PPh Tidak Final'')) = pre @ rest
      \<and> stateB (loopB initB pre) = k \<and> k \<in> anchor_statesB \<and> (\<forall>l\<in>set rest. \<not> anchorB k l)
      \<longrightarrow> extractBFormatedEbupot data = retB (loopB initB pre)
        \<and> later_defaultB k (extractBFormatedEbupot data))
   \<and> (\<forall>(c::extractA_state) k l. stateA c = k \<and> k \<in> anchor_statesA
        \<longrightarrow> (anchorA k l \<longleftrightarrow> stateA (unflow (stepA c l)) \<noteq> k))
   \<and> (\<forall>(c::extractB_state) k l. stateB c = k \<and> k \<in> anchor_statesB
        \<longrightarrow> (anchorB k l \<longleftrightarrow> stateB (unflow (stepB c l)) \<noteq> k))
   \<and> (\<exists>r. extractCFormatedEbupot data = Inr r)"
proof (intro conjI allI impI)
  fix k
  define ls where "ls = split_lines (substring_from data (indexOf data ''Dokumen Referensi''))"
  assume "k \<in> anchor_statesA
      \<and> (\<forall>l\<in>set (split_lines (substring_from data (indexOf data ''Dokumen Referensi''))).
            \<not> anchorA k l)"
  then have k: "k \<in> anchor_statesA" and miss: "\<forall>l\<in>set ls. \<not> anchorA k l"
    by (simp_all add: ls_def)
  have le: "stateA (loopA initA ls) \<le> k"
    using k miss by (intro loopA_bounded) (simp_all add: initA_def)
  have "invA (loopA initA ls)" by (rule loopA_inv [OF invA_init])
  then have "later_defaultA (stateA (loopA initA ls)) (retA (loopA initA ls))"
    by (simp add: invA_def)
  then have "later_defaultA k (retA (loopA initA ls))"
    using le by (rule later_defaultA_mono)
  with le show "stateA (loopA initA
        (split_lines (substring_from data (indexOf data ''Dokumen Referensi'')))) \<le> k"
    and "later_defaultA k (extractAFormatedEbupot data)"
    by (simp_all add: ls_def extractAFormatedEbupot_def)
next
  fix k
  define ls where "ls = split_lines (substring_from data (indexOf data ''PPh Tidak Final''))"
  assume "k \<in> anchor_statesB
      \<and> (\<forall>l\<in>set (split_lines (substring_from data (indexOf data ''PPh Tidak Final''))).
            \<not> anchorB k l)"
  then have k: "k \<in> anchor_statesB" and miss: "\<forall>l\<in>set ls. \<not> anchorB k l"
    by (simp_all add: ls_def)
  have le: "stateB (loopB initB ls) \<le> k"
    using k miss by (intro loopB_bounded) (simp_all add: initB_def)
  have "invB (loopB initB ls)" by (rule loopB_inv [OF invB_init])
  then have "later_defaultB (stateB (loopB initB ls)) (retB (loopB initB ls))"
    by (simp add: invB_def)
  then have "later_defaultB k (retB (loopB initB ls))"
    using le by (rule later_defaultB_mono)
  with le show "stateB (loopB initB
        (split_lines (substring_from data (indexOf data ''PPh Tidak Final'')))) \<le> k"
    and "later_defaultB k (extractBFormatedEbupot data)"
    by (simp_all add: ls_def extractBFormatedEbupot_def)
next
  fix pre rest k
  assume asm: "split_lines (substring_from data (indexOf data ''Dokumen Referensi'')) = pre @ rest
      \<and> stateA (loopA initA pre) = k \<and> k \<in> anchor_statesA \<and> (\<forall>l\<in>set rest. \<not> anchorA k l)"
  define c where "c = loopA initA pre"
  have st: "stateA c = k" and k: "k \<in> anchor_statesA" and miss: "\<forall>l\<in>set rest. \<not> anchorA k l"
    using asm by (simp_all add: c_def)
  have "k \<noteq> 14" using k by (auto simp: anchor_statesA_def)
  then have "loopA initA (pre @ rest) = loopA c rest"
    unfolding c_def using st by (intro loopA_append) (simp add: c_def)
  moreover have "retA (loopA c rest) = retA c"
    using loopA_stuck [OF st k miss] by simp
  ultimately have res: "extractAFormatedEbupot data = retA c"
    using asm by (simp add: extractAFormatedEbupot_def)
  have "invA c" unfolding c_def by (rule loopA_inv [OF invA_init])
  then have "later_defaultA k (retA c)" using st by (simp add: invA_def)
  with res show "extractAFormatedEbupot data = retA (loopA initA pre)"
    and "later_defaultA k (extractAFormatedEbupot data)"
    by (simp_all add: c_def)
next
  fix pre rest k
  assume asm: "split_lines (substring_from data (indexOf data ''PPh Tidak Final'')) = pre @ rest
      \<and> stateB (loopB initB pre) = k \<and> k \<in> anchor_statesB \<and> (\<forall>l\<in>set rest. \<not> anchorB k l)"
  define c where "c = loopB initB pre"
  have st: "stateB c = k" and k: "k \<in> anchor_statesB" and miss: "\<forall>l\<in>set rest. \<not> anchorB k l"
    using asm by (simp_all add: c_def)
  have "k \<noteq> 12" using k by (auto simp: anchor_statesB_def)
  then have "loopB initB (pre @ rest) = loopB c rest"
    unfolding c_def using st by (intro loopB_append) (simp add: c_def)
  moreover have "retB (loopB c rest) = retB c"
    using loopB_stuck [OF st k miss] by simp
  ultimately have res: "extractBFormatedEbupot data = retB c"
    using asm by (simp add: extractBFormatedEbupot_def)
  have "invB c" unfolding c_def by (rule loopB_inv [OF invB_init])
  then have "later_defaultB k (retB c)" using st by (simp add: invB_def)
  with res show "extractBFormatedEbupot data = retB (loopB initB pre)"
    and "later_defaultB k (extractBFormatedEbupot data)"
    by (simp_all add: c_def)
next
  fix c :: extractA_state and k l
  assume "stateA c = k \<and> k \<in> anchor_statesA"
  then show "anchorA k l = (stateA (unflow (stepA c l)) \<noteq> k)"
    by (auto simp: anchor_statesA_def anchorA_def stepA_at indexOf_found)
next
  fix c :: extractB_state and k l
  assume "stateB c = k \<and> k \<in> anchor_statesB"
  then show "anchorB k l = (stateB (unflow (stepB c l)) \<noteq> k)"
    by (auto simp: anchor_statesB_def anchorB_def stepB_at)
next
  show "\<exists>r. extractCFormatedEbupot data = Inr r"
    by (rule extractC_total)
qed

theorem missing_anchor_halts_in_place_witness:
  "extractAFormatedEbupot ''x\<newline>Dokumen Referensi\<newline>cap\<newline>foo\<newline>C.1''
     = empty_data\<lparr>b7 := [''cap'']\<rparr>
   \<and> later_defaultA 2 (empty_data\<lparr>b7 := [''cap'']\<rparr>)
   \<and> stateA (loopA initA (split_lines (substring_from
         ''x\<newline>Dokumen Referensi\<newline>cap\<newline>foo\<newline>C.1''
         (indexOf ''x\<newline>Dokumen Referensi\<newline>cap\<newline>foo\<newline>C.1'' ''Dokumen Referensi'')))) \<le> 2
   \<and> extractBFormatedEbupot ''PPh Tidak Final\<newline>x\<newline>H1\<newline>foo\<newline>ddmmyyyy''
     = empty_data\<lparr>h1 := ''H1''\<rparr>
   \<and> later_defaultB 3 (empty_data\<lparr>h1 := ''H1''\<rparr>)
   \<and> stateB (loopB initB (split_lines (substring_from
         ''PPh Tidak Final\<newline>x\<newline>H1\<newline>foo\<newline>ddmmyyyy''
         (indexOf ''PPh Tidak Final\<newline>x\<newline>H1\<newline>foo\<newline>ddmmyyyy'' ''PPh Tidak Final'')))) \<le> 3
   \<and> stateA (unflow (stepA (initA\<lparr>stateA := 2\<rparr>) ''yyyy'')) \<noteq> 2
   \<and> stateB (unflow (stepB (initB\<lparr>stateB := 3\<rparr>) ''B.1B.2B.3B.4B.5B.6'')) \<noteq> 3"
proof -
  let ?A = "''x\<newline>Dokumen Referensi\<newline>cap\<newline>foo\<newline>C.1''"
  let ?B = "''PPh Tidak Final\<newline>x\<newline>H1\<newline>foo\<newline>ddmmyyyy''"
  have la: "split_lines (substring_from ?A (indexOf ?A ''Dokumen Referensi''))
      = [''Dokumen Referensi'', ''cap''] @ [''foo'', ''C.1'']"
    by code_simp
  have sa: "stateA (loopA initA [''Dokumen Referensi'', ''cap'']) = 2"
    by code_simp
  have ka: "2 \<in> anchor_statesA"
    by (simp add: anchor_statesA_def)
  have ma: "\<forall>l\<in>set [''foo'', ''C.1'']. \<not> anchorA 2 l"
    by (simp add: anchorA_def)
  have na: "\<forall>l\<in>set (split_lines (substring_from ?A (indexOf ?A ''Dokumen Referensi''))).
      \<not> anchorA 2 l"
    unfolding la by (simp add: anchorA_def)
  have ra: "retA (loopA initA [''Dokumen Referensi'', ''cap'']) = empty_data\<lparr>b7 := [''cap'']\<rparr>"
    by code_simp
  have lb: "split_lines (substring_from ?B (indexOf ?B ''PPh Tidak Final''))
      = [''PPh Tidak Final'', ''x'', ''H1''] @ [''foo'', ''ddmmyyyy'']"
    by code_simp
  have sb: "stateB (loopB initB [''PPh Tidak Final'', ''x'', ''H1'']) = 3"
    by code_simp
  have kb: "3 \<in> anchor_statesB"
    by (simp add: anchor_statesB_def)
  have mb: "\<forall>l\<in>set [''foo'', ''ddmmyyyy'']. \<not> anchorB 3 l"
    by (simp add: anchorB_def)
  have nb: "\<forall>l\<in>set (split_lines (substring_from ?B (indexOf ?B ''PPh Tidak Final''))).
      \<not> anchorB 3 l"
    unfolding lb by (simp add: anchorB_def)
  have rb: "retB (loopB initB [''PPh Tidak Final'', ''x'', ''H1'']) = empty_data\<lparr>h1 := ''H1''\<rparr>"
    by code_simp
  have a: "extractAFormatedEbupot ?A = retA (loopA initA [''Dokumen Referensi'', ''cap''])
      \<and> later_defaultA 2 (extractAFormatedEbupot ?A)"
    using missing_anchor_halts_in_place [of ?A, THEN conjunct2, THEN conjunct2, THEN conjunct1,
        rule_format, of "[''Dokumen Referensi'', ''cap'']" "[''foo'', ''C.1'']" 2] la sa ka ma
    by blast
  have b: "extractBFormatedEbupot ?B = retB (loopB initB [''PPh Tidak Final'', ''x'', ''H1''])
      \<and> later_defaultB 3 (extractBFormatedEbupot ?B)"
    using missing_anchor_halts_in_place [of ?B, THEN conjunct2, THEN conjunct2, THEN conjunct2,
        THEN conjunct1, rule_format,
        of "[''PPh Tidak Final'', ''x'', ''H1'']" "[''foo'', ''ddmmyyyy'']" 3] lb sb kb mb
    by blast
  have a1: "extractAFormatedEbupot ?A = empty_data\<lparr>b7 := [''cap'']\<rparr>"
    by (rule a [unfolded ra, THEN conjunct1])
  have a2: "later_defaultA 2 (empty_data\<lparr>b7 := [''cap'']\<rparr>)"
    by (rule a [THEN conjunct2, unfolded a1])
  have a3: "stateA (loopA initA (split_lines (substring_from ?A
      (indexOf ?A ''Dokumen Referensi'')))) \<le> 2"
    using missing_anchor_halts_in_place [of ?A, THEN conjunct1, rule_format, of 2] ka na
    by blast
  have b1: "extractBFormatedEbupot ?B = empty_data\<lparr>h1 := ''H1''\<rparr>"
    by (rule b [unfolded rb, THEN conjunct1])
  have b2: "later_defaultB 3 (empty_data\<lparr>h1 := ''H1''\<rparr>)"
    by (rule b [THEN conjunct2, unfolded b1])
  have b3: "stateB (loopB initB (split_lines (substring_from ?B
      (indexOf ?B ''PPh Tidak Final'')))) \<le> 3"
    using missing_anchor_halts_in_place [of ?B, THEN conjunct2, THEN conjunct1, rule_format, of 3]
      kb nb
    by blast
  have "anchorA 2 ''yyyy''"
    by (simp add: anchorA_def)
  then have a4: "stateA (unflow (stepA (initA\<lparr>stateA := 2\<rparr>) ''yyyy'')) \<noteq> 2"
    using missing_anchor_halts_in_place [of ?A, THEN conjunct2, THEN conjunct2, THEN conjunct2,
        THEN conjunct2, THEN conjunct1, rule_format, of "initA\<lparr>stateA := 2\<rparr>" 2 "''yyyy''"] ka
    by simp
  have "anchorB 3 ''B.1B.2B.3B.4B.5B.6''"
    by (simp add: anchorB_def)
  then have b4: "stateB (unflow (stepB (initB\<lparr>stateB := 3\<rparr>) ''B.1B.2B.3B.4B.5B.6'')) \<noteq> 3"
    using missing_anchor_halts_in_place [of ?B, THEN conjunct2, THEN conjunct2, THEN conjunct2,
        THEN conjunct2, THEN conjunct2, THEN conjunct1, rule_format,
        of "initB\<lparr>stateB := 3\<rparr>" 3 "''B.1B.2B.3B.4B.5B.6''"] kb
    by simp
  show ?thesis by (intro conjI a1 a2 a3 b1 b2 b3 a4 b4)
qed

end
